theory Spec2Isabelle
  imports Complex_Main "HOL-Library.Log_Nat"
begin

section \<open>The training loop of \<^verbatim>\<open>src/models/train_model.py\<close>\<close>

text \<open>
  The development embeds \<^verbatim>\<open>train_model\<close> and \<^verbatim>\<open>save_results\<close>. The function calls
  into PyTorch, Optuna, Azure ML and the repository's own \<^verbatim>\<open>Classifier\<close>; none of them is
  part of the two source files, so they enter as fields of a record of collaborators.
  Everything the function itself decides (the order of the calls, the split sizes, the
  loop over epochs and batches, the sums and quotients of the metrics, the pruning check
  and the calls that write files) is written out below.

  Python floats that carry metrics are idealised as \<^typ>\<open>real\<close>. The one float
  computation whose exact value matters, \<^verbatim>\<open>int(0.85 * len(train_set))\<close>, is modelled bit
  for bit as an IEEE double multiplication.
\<close>

subsection \<open>Exceptions\<close>

text \<open>
  The exceptions that can leave \<^verbatim>\<open>train_model\<close>. \<open>TrialPruned\<close> is raised on line 203
  with no argument. \<open>ZeroDivisionError\<close> is what Python's \<^verbatim>\<open>/\<close> raises on lines
  184 to 187. The library raises \<^verbatim>\<open>ValueError\<close> in three places, told apart here by
  their cause: \<^verbatim>\<open>random_split\<close> for lengths that do not add up to the length of the
  dataset, the sampler of a shuffling loader for a dataset without samples
  (\<^verbatim>\<open>num_samples\<close> has to be positive), and the batch sampler for a batch size that is
  not positive. \<open>IndexError\<close> is the answer to a dataset read out of range, and
  \<open>StopIteration\<close> that of \<^verbatim>\<open>dataiter.next()\<close> on line 98 to a loader that yields no
  batch. \<open>InvalidSplitError\<close> and \<open>EmptyPartitionError\<close> are the names the
  specification uses; no line of the source raises them.
\<close>

datatype cause = SplitLengths | NumSamples | BatchSize

datatype error =
    TrialPruned
  | ZeroDivisionError
  | ValueError cause
  | IndexError
  | StopIteration
  | InvalidSplitError
  | EmptyPartitionError

subsection \<open>The batch iterator\<close>

text \<open>
  Lines 89 to 95 build both loaders with \<^verbatim>\<open>batch_size=batch_size, shuffle=True\<close> and
  leave \<^verbatim>\<open>drop_last\<close> at its default \<^verbatim>\<open>False\<close>: the loader cuts the order drawn by its
  sampler into consecutive groups of \<^verbatim>\<open>batch_size\<close> indices and yields what is left
  over as a last, shorter batch. A loader is only built for a positive batch size, so
  the branch for \<open>b = 0\<close> is never taken by \<^verbatim>\<open>train_model\<close>.
\<close>

function batch_sampler :: "nat \<Rightarrow> 'a list \<Rightarrow> 'a list list" where
  "batch_sampler b xs =
     (if b = 0 \<or> xs = [] then [] else take b xs # batch_sampler b (drop b xs))"
  by pat_completeness auto
termination
  by (relation "measure (\<lambda>(b, xs). length xs)") auto

declare batch_sampler.simps [simp del]

text \<open>\<^verbatim>\<open>len(loader)\<close>: the number of batches of one pass, as the library computes it.\<close>

definition loader_len :: "nat \<Rightarrow> nat \<Rightarrow> nat" where
  "loader_len b n = (n + b - 1) div b"

subsection \<open>The split sizes\<close>

text \<open>
  Line 77 is \<^verbatim>\<open>train_n = int(0.85 * len(train_set))\<close>: the length is converted to a
  double, multiplied by the double nearest to 0.85 and truncated. The double nearest to
  0.85 is \<open>7656119366529843 / 2 ^ 53\<close>, a little below 17/20. Every double operation
  rounds to 53 significant bits, ties to even; the lengths and products here are far from
  the range where doubles overflow or become subnormal, so rounding is the only effect.
\<close>

definition round_half_even :: "nat \<Rightarrow> nat \<Rightarrow> nat" where
  "round_half_even p s =
     (let m = p div 2 ^ s; r = p mod 2 ^ s; h = 2 ^ (s - 1)
      in if h < r \<or> (r = h \<and> odd m) then m + 1 else m)"

text \<open>\<open>round53 p\<close>: the natural number \<open>p\<close> rounded to 53 significant bits.\<close>

definition round53 :: "nat \<Rightarrow> nat" where
  "round53 p =
     (let l = floorlog 2 p
      in if l \<le> 53 then p else round_half_even p (l - 53) * 2 ^ (l - 53))"

definition double_085 :: nat where
  "double_085 = 7656119366529843"

text \<open>\<^verbatim>\<open>int(0.85 * n)\<close> for a length \<open>n\<close>.\<close>

definition int_085 :: "nat \<Rightarrow> nat" where
  "int_085 n = round53 (double_085 * round53 n) div 2 ^ 53"

subsection \<open>Collaborators\<close>

text \<open>
  The library calls of \<^verbatim>\<open>train_model\<close>, as functions of an opaque state \<open>'t\<close> of the
  PyTorch runtime (the global random number generator, the model's parameters and mode,
  the optimizer's moments):
  \<^item> \<open>manual_seed\<close>: lines 42 and 43, the state after seeding the generators;
  \<^item> \<open>randperm\<close>: the permutation that \<^verbatim>\<open>random_split\<close> draws for a given total length;
  \<^item> \<open>sampler_order\<close>: the order in which a loader with \<^verbatim>\<open>shuffle=True\<close> visits the
    positions of a subset of the given length, drawn once at the start of each pass;
  \<^item> \<open>new_classifier\<close>: lines 84 and 104 to 124, building the \<^verbatim>\<open>Classifier\<close> with
    \<^verbatim>\<open>dropout_p\<close> and its Adam optimizer with the learning rate;
  \<^item> \<open>train_step\<close>: lines 135 to 158 for one batch of images and labels: the forward
    pass in training mode, the loss, the backward pass and the optimizer step. It
    yields \<^verbatim>\<open>loss.item()\<close> and the column \<^verbatim>\<open>top_class\<close>, one class per sample;
  \<^item> \<open>eval_step\<close>: lines 168 to 179, the same in evaluation mode without an update.
\<close>

record ('t, 'img) torch =
  manual_seed :: "int \<Rightarrow> 't"
  randperm :: "nat \<Rightarrow> 't \<Rightarrow> nat list \<times> 't"
  sampler_order :: "nat \<Rightarrow> 't \<Rightarrow> nat list \<times> 't"
  new_classifier :: "real \<Rightarrow> real \<Rightarrow> 't \<Rightarrow> 't"
  train_step :: "'img list \<Rightarrow> int list \<Rightarrow> 't \<Rightarrow> (real \<times> int list) \<times> 't"
  eval_step :: "'img list \<Rightarrow> int list \<Rightarrow> 't \<Rightarrow> (real \<times> int list) \<times> 't"

text \<open>
  The optional \<^verbatim>\<open>trial\<close> object: its state and the two methods the loop calls on it.
\<close>

record 'h trial_handle =
  handle :: 'h
  report :: "real \<Rightarrow> nat \<Rightarrow> 'h \<Rightarrow> 'h"
  should_prune :: "'h \<Rightarrow> bool"

text \<open>The parameters of \<^verbatim>\<open>train_model\<close>, lines 20 to 32.\<close>

record 'h config =
  trained_model_filepath :: string
  training_statistics_filepath :: string
  training_figures_filepath :: string
  use_azure :: bool
  epochs :: int
  learning_rate :: real
  dropout_p :: real
  batch_size :: int
  seed :: int
  trial :: "'h trial_handle option"
  save_training_results :: bool

text \<open>The dictionary that \<^verbatim>\<open>train_model\<close> returns, lines 206 to 211.\<close>

record train_val_dict =
  train_losses :: "real list"
  train_accuracies :: "real list"
  val_losses :: "real list"
  val_accuracies :: "real list"

definition empty_dict :: train_val_dict where
  "empty_dict =
     \<lparr>train_losses = [], train_accuracies = [], val_losses = [], val_accuracies = []\<rparr>"

subsection \<open>Effects\<close>

text \<open>
  What a run does to the world outside, in the order in which it happens. A path is
  either a string used as it is, a chain of \<^verbatim>\<open>joinpath\<close> calls on the project directory,
  or the \<^verbatim>\<open>os.path.dirname\<close> of a path. Console lines of fixed text are left out.
\<close>

datatype path = Str string | InProject "string list" | Dirname path

datatype 't event =
    GDownload
  | RunLog string real
  | PrintLengths nat nat
  | PrintShapes nat nat
  | EpochInfo nat int real real real real
  | TrialReport real nat
  | MakeDirs path
  | RunLogList string "real list"
  | TorchSave 't path
  | PickleDump train_val_dict path
  | RunLogImage string
  | SaveFig path
  | RunComplete

text \<open>The events that leave an artifact behind: model weights, statistics, plots.\<close>

fun persists :: "'t event \<Rightarrow> bool" where
  "persists (TorchSave t p) = True"
| "persists (PickleDump d p) = True"
| "persists (SaveFig p) = True"
| "persists (MakeDirs p) = True"
| "persists (RunLogList k vs) = True"
| "persists (RunLogImage k) = True"
| "persists _ = False"

subsection \<open>Seeding and splitting\<close>

text \<open>
  Lines 40 to 43. The parameter \<^verbatim>\<open>seed\<close> is assigned 0 before its first use.
\<close>

definition seed_generators :: "('t, 'img) torch \<Rightarrow> 'h config \<Rightarrow> 't" where
  "seed_generators env cfg = (let seed = seed cfg; seed = (0::int) in manual_seed env seed)"

text \<open>
  \<^verbatim>\<open>random_split(train_set, [train_n, val_n])\<close>: the library refuses lengths that do not
  add up to the length of the dataset, draws one permutation of all positions and hands
  out consecutive slices of it.
\<close>

definition random_split ::
  "('t, 'img) torch \<Rightarrow> nat \<Rightarrow> nat \<Rightarrow> nat \<Rightarrow> 't \<Rightarrow> error + ((nat list \<times> nat list) \<times> 't)" where
  "random_split env n train_n val_n t =
     (if train_n + val_n \<noteq> n then Inl (ValueError SplitLengths)
      else case randperm env (train_n + val_n) t of
        (indices, t') \<Rightarrow>
          Inr ((take train_n indices, drop train_n (take (train_n + val_n) indices)), t'))"

text \<open>
  Lines 77 to 79 for a dataset of \<open>n\<close> samples. \<^verbatim>\<open>train_n\<close> never exceeds \<open>n\<close>
  (\<open>int_085_le\<close> below), so the difference on line 78 is one of natural numbers.
\<close>

definition dataset_splitter ::
  "('t, 'img) torch \<Rightarrow> nat \<Rightarrow> 't \<Rightarrow> error + ((nat list \<times> nat list) \<times> 't)" where
  "dataset_splitter env n t =
     (let train_n = int_085 n; val_n = n - train_n
      in random_split env n train_n val_n t)"

text \<open>Lines 40 to 79: the split as \<^verbatim>\<open>train_model\<close> performs it.\<close>

definition split_data ::
  "('t, 'img) torch \<Rightarrow> 'h config \<Rightarrow> ('img \<times> int) list \<Rightarrow>
   error + ((nat list \<times> nat list) \<times> 't)" where
  "split_data env cfg train_set =
     dataset_splitter env (length train_set) (seed_generators env cfg)"

subsection \<open>Reading a subset\<close>

text \<open>
  \<^verbatim>\<open>Subset.__getitem__\<close>: position \<open>i\<close> of a subset is the dataset's sample at
  \<^verbatim>\<open>indices[i]\<close>; a position or an index out of range raises.
\<close>

definition subset_getitem :: "'a list \<Rightarrow> nat list \<Rightarrow> nat \<Rightarrow> error + 'a" where
  "subset_getitem dataset indices i =
     (if i < length indices \<and> indices ! i < length dataset
      then Inr (dataset ! (indices ! i)) else Inl IndexError)"

fun fetch :: "'a list \<Rightarrow> nat list \<Rightarrow> nat list \<Rightarrow> error + 'a list" where
  "fetch dataset indices [] = Inr []"
| "fetch dataset indices (i # batch) =
     (case subset_getitem dataset indices i of
        Inl e \<Rightarrow> Inl e
      | Inr x \<Rightarrow>
          (case fetch dataset indices batch of
             Inl e \<Rightarrow> Inl e
           | Inr xs \<Rightarrow> Inr (x # xs)))"

subsection \<open>One pass over a loader\<close>

text \<open>
  Lines 158 to 160 and 179 to 181: the number of positions at which \<^verbatim>\<open>top_class\<close> and
  the labels agree, as the float that \<^verbatim>\<open>.sum().item()\<close> yields.
\<close>

definition num_equal :: "int list \<Rightarrow> int list \<Rightarrow> real" where
  "num_equal top_classes labels =
     real (length (filter (\<lambda>(c, l). c = l) (zip top_classes labels)))"

text \<open>
  The loops of lines 133 to 160 and 169 to 181 have the same shape and differ in the
  step they take on a batch; \<open>step\<close> is \<open>train_step env\<close> in the first and
  \<open>eval_step env\<close> in the second. The running loss and the running count of correct
  predictions are the accumulators. A batch that cannot be fetched ends the pass with
  the exception and the runtime as the batches before it left it.
\<close>

fun data_pass ::
  "('img list \<Rightarrow> int list \<Rightarrow> 't \<Rightarrow> (real \<times> int list) \<times> 't) \<Rightarrow> ('img \<times> int) list \<Rightarrow>
   nat list \<Rightarrow> nat list list \<Rightarrow> real \<Rightarrow> real \<Rightarrow> 't \<Rightarrow> (error \<times> 't) + (real \<times> real \<times> 't)" where
  "data_pass step dataset indices [] loss correct t = Inr (loss, correct, t)"
| "data_pass step dataset indices (batch # batches) loss correct t =
     (case fetch dataset indices batch of
        Inl e \<Rightarrow> Inl (e, t)
      | Inr samples \<Rightarrow>
          (case step (map fst samples) (map snd samples) t of
             ((l, top_classes), t') \<Rightarrow>
               data_pass step dataset indices batches
                 (loss + l) (correct + num_equal top_classes (map snd samples)) t'))"

subsection \<open>Finalizing the metrics of an epoch\<close>

text \<open>Python's \<^verbatim>\<open>/\<close> with an integer divisor.\<close>

definition py_truediv :: "real \<Rightarrow> nat \<Rightarrow> error + real" where
  "py_truediv x n = (if n = 0 then Inl ZeroDivisionError else Inr (x / real n))"

text \<open>
  Lines 184 to 187: four statements, each computing one quotient and appending it to
  its list. The divisors are \<^verbatim>\<open>len(trainloader)\<close>, \<^verbatim>\<open>len(train_data)\<close>,
  \<^verbatim>\<open>len(valoader)\<close> and \<^verbatim>\<open>len(val_data)\<close>. A division that raises leaves the lists
  as the statements before it made them; the exception comes with those lists.
\<close>

definition finalize ::
  "train_val_dict \<Rightarrow> real \<Rightarrow> real \<Rightarrow> real \<Rightarrow> real \<Rightarrow> nat \<Rightarrow> nat \<Rightarrow> nat \<Rightarrow> nat \<Rightarrow>
   (error \<times> train_val_dict) + train_val_dict" where
  "finalize d train_loss train_correct val_loss val_correct
       len_trainloader len_train_data len_valoader len_val_data =
     (case py_truediv train_loss len_trainloader of
        Inl e \<Rightarrow> Inl (e, d)
      | Inr tr_loss \<Rightarrow>
     (case py_truediv train_correct len_train_data of
        Inl e \<Rightarrow> Inl (e, d\<lparr>train_losses := train_losses d @ [tr_loss]\<rparr>)
      | Inr tr_acc \<Rightarrow>
     (case py_truediv val_loss len_valoader of
        Inl e \<Rightarrow>
          Inl (e, d\<lparr>train_losses := train_losses d @ [tr_loss],
                    train_accuracies := train_accuracies d @ [tr_acc]\<rparr>)
      | Inr va_loss \<Rightarrow>
     (case py_truediv val_correct len_val_data of
        Inl e \<Rightarrow>
          Inl (e, d\<lparr>train_losses := train_losses d @ [tr_loss],
                    train_accuracies := train_accuracies d @ [tr_acc],
                    val_losses := val_losses d @ [va_loss]\<rparr>)
      | Inr va_acc \<Rightarrow>
          Inr (d\<lparr>train_losses := train_losses d @ [tr_loss],
                 train_accuracies := train_accuracies d @ [tr_acc],
                 val_losses := val_losses d @ [va_loss],
                 val_accuracies := val_accuracies d @ [va_acc]\<rparr>)))))"

subsection \<open>One epoch\<close>

text \<open>
  Lines 130 to 187 for one value of \<open>e\<close>: a pass over the training loader, a pass over
  the validation loader, then the four quotients. \<open>b\<close> is the batch size. An exception
  comes with the lists and the runtime as they are when it is raised.
\<close>

definition run_epoch ::
  "('t, 'img) torch \<Rightarrow> ('img \<times> int) list \<Rightarrow> nat \<Rightarrow> nat list \<Rightarrow> nat list \<Rightarrow>
   train_val_dict \<Rightarrow> 't \<Rightarrow> (error \<times> train_val_dict \<times> 't) + (train_val_dict \<times> 't)" where
  "run_epoch env dataset b train_idx val_idx d t =
     (case sampler_order env (length train_idx) t of
        (order, t1) \<Rightarrow>
     (case data_pass (train_step env) dataset train_idx (batch_sampler b order) 0 0 t1 of
        Inl (e, t2) \<Rightarrow> Inl (e, d, t2)
      | Inr (train_loss, train_correct, t2) \<Rightarrow>
     (case sampler_order env (length val_idx) t2 of
        (vorder, t3) \<Rightarrow>
     (case data_pass (eval_step env) dataset val_idx (batch_sampler b vorder) 0 0 t3 of
        Inl (e, t4) \<Rightarrow> Inl (e, d, t4)
      | Inr (val_loss, val_correct, t4) \<Rightarrow>
     (case finalize d train_loss train_correct val_loss val_correct
             (loader_len b (length train_idx)) (length train_idx)
             (loader_len b (length val_idx)) (length val_idx) of
        Inl (e, d') \<Rightarrow> Inl (e, d', t4)
      | Inr d' \<Rightarrow> Inr (d', t4))))))"

subsection \<open>The loop over the epochs\<close>

text \<open>
  What the loop carries from one epoch to the next: the runtime, the four lists, the
  trial object and the effects so far.
\<close>

record ('t, 'h) run_state =
  runtime :: 't
  history :: train_val_dict
  trial_now :: "'h trial_handle option"
  events :: "'t event list"

text \<open>Lines 184 to 195: the new lists are kept and the summary line is logged.\<close>

definition log_epoch ::
  "nat \<Rightarrow> int \<Rightarrow> train_val_dict \<Rightarrow> 't \<Rightarrow> ('t, 'h) run_state \<Rightarrow> ('t, 'h) run_state" where
  "log_epoch e n_epochs d t s =
     s\<lparr>runtime := t, history := d,
       events := events s @
         [EpochInfo (e + 1) n_epochs (last (train_losses d)) (last (train_accuracies d))
            (last (val_losses d)) (last (val_accuracies d))]\<rparr>"

text \<open>Line 199: \<^verbatim>\<open>trial.report(val_accuracies[-1], e)\<close> changes the trial object.\<close>

definition after_report :: "real \<Rightarrow> nat \<Rightarrow> 'h trial_handle \<Rightarrow> 'h trial_handle" where
  "after_report v e tr = tr\<lparr>handle := report tr v e (handle tr)\<rparr>"

definition report_epoch ::
  "nat \<Rightarrow> 'h trial_handle \<Rightarrow> ('t, 'h) run_state \<Rightarrow> ('t, 'h) run_state" where
  "report_epoch e tr s =
     s\<lparr>trial_now := Some (after_report (last (val_accuracies (history s))) e tr),
       events := events s @ [TrialReport (last (val_accuracies (history s))) e]\<rparr>"

text \<open>
  Lines 129 to 203, over the values of \<^verbatim>\<open>range(epochs)\<close> still to come. The result is
  the exception that ended the loop, if any, with the state at that moment.
\<close>

fun epoch_loop ::
  "('t, 'img) torch \<Rightarrow> ('img \<times> int) list \<Rightarrow> nat \<Rightarrow> nat list \<Rightarrow> nat list \<Rightarrow> int \<Rightarrow>
   nat list \<Rightarrow> ('t, 'h) run_state \<Rightarrow> error option \<times> ('t, 'h) run_state" where
  "epoch_loop env dataset b train_idx val_idx n_epochs [] s = (None, s)"
| "epoch_loop env dataset b train_idx val_idx n_epochs (e # es) s =
     (case run_epoch env dataset b train_idx val_idx (history s) (runtime s) of
        Inl (err, d, t) \<Rightarrow> (Some err, s\<lparr>runtime := t, history := d\<rparr>)
      | Inr (d, t) \<Rightarrow>
          (case trial_now s of
             None \<Rightarrow>
               epoch_loop env dataset b train_idx val_idx n_epochs es
                 (log_epoch e n_epochs d t s)
           | Some tr \<Rightarrow>
               if should_prune tr (handle (after_report (last (val_accuracies d)) e tr))
               then (Some TrialPruned, report_epoch e tr (log_epoch e n_epochs d t s))
               else epoch_loop env dataset b train_idx val_idx n_epochs es
                      (report_epoch e tr (log_epoch e n_epochs d t s))))"

subsection \<open>Saving the results\<close>

text \<open>
  \<^verbatim>\<open>save_results\<close>, lines 232 to 307, as the list of its effects in order. \<open>model\<close> is
  the runtime whose parameters \<^verbatim>\<open>model.state_dict()\<close> reads. Failures of the file
  system are not modelled.
\<close>

definition save_results ::
  "string \<Rightarrow> string \<Rightarrow> string \<Rightarrow> 't \<Rightarrow> train_val_dict \<Rightarrow> bool \<Rightarrow> 't event list" where
  "save_results model_filepath statistics_filepath figures_filepath model d azure =
     (if azure then
        [MakeDirs (Str ''./outputs''),
         MakeDirs (Dirname (Str (''./outputs/'' @ model_filepath))),
         MakeDirs (Dirname (Str (''./outputs/'' @ statistics_filepath @ ''train_val_dict.pickle''))),
         MakeDirs (Str (''./outputs/'' @ figures_filepath)),
         RunLogList ''Train loss'' (train_losses d),
         RunLogList ''Train accuracy'' (train_accuracies d),
         RunLogList ''Validation loss'' (val_losses d),
         RunLogList ''Validation accuracy'' (val_accuracies d),
         TorchSave model (Str (''./outputs/'' @ model_filepath)),
         PickleDump d (Str (''./outputs/'' @ statistics_filepath @ ''train_val_dict.pickle'')),
         RunLogImage ''Training loss curve'',
         SaveFig (Str ((''./outputs/'' @ figures_filepath) @ ''Training_Loss.pdf'')),
         RunLogImage ''Training accuracy curve'',
         SaveFig (Str ((''./outputs/'' @ figures_filepath) @ ''Training_Accuracy.pdf''))]
      else
        [TorchSave model (InProject [model_filepath]),
         PickleDump d (InProject [statistics_filepath, ''train_val_dict.pickle'']),
         SaveFig (InProject [figures_filepath, ''Training_Loss.pdf'']),
         SaveFig (InProject [figures_filepath, ''Training_Accuracy.pdf''])])"

subsection \<open>The whole run\<close>

text \<open>Lines 48 to 63: what is done first when \<^verbatim>\<open>use_azure\<close> is set.\<close>

definition azure_start :: "'h config \<Rightarrow> 't event list" where
  "azure_start cfg =
     (if use_azure cfg then
        [GDownload,
         RunLog ''Learning rate'' (learning_rate cfg),
         RunLog ''Epochs'' (of_int (epochs cfg)),
         RunLog ''Dropout'' (dropout_p cfg)]
      else [])"

text \<open>
  Lines 205 to 229: after a loop that ran to its end. \<^verbatim>\<open>trial\<close> on line 225 is the
  object that was passed in, which is true in Python whenever it is there.
\<close>

definition finish ::
  "'h config \<Rightarrow> ('t, 'h) run_state \<Rightarrow> (error + train_val_dict) \<times> 't event list" where
  "finish cfg s =
     (Inr (history s),
      events s
      @ (if save_training_results cfg
         then save_results (trained_model_filepath cfg) (training_statistics_filepath cfg)
                (training_figures_filepath cfg) (runtime s) (history s) (use_azure cfg)
         else [])
      @ (if use_azure cfg then (case trial cfg of None \<Rightarrow> [RunComplete] | Some tr \<Rightarrow> [])
         else []))"

text \<open>
  Lines 83 to 124, once the data is split: what happens before the loop. Building the
  training loader on line 89 builds its sampler first, which refuses a subset without
  samples, and then its batch sampler, which refuses a batch size that is not positive;
  building the validation loader on line 93 refuses a validation subset without
  samples in the same way. The first batch is fetched for the two lines that print its
  shape, and the classifier is built. The result is the state in which the loop starts.
\<close>

definition start_loop ::
  "('t, 'img) torch \<Rightarrow> 'h config \<Rightarrow> ('img \<times> int) list \<Rightarrow> nat list \<Rightarrow> nat list \<Rightarrow> 't \<Rightarrow>
   't event list \<Rightarrow> error + ('t, 'h) run_state" where
  "start_loop env cfg train_set train_idx val_idx t ev =
     (if train_idx = [] then Inl (ValueError NumSamples)
      else if batch_size cfg \<le> 0 then Inl (ValueError BatchSize)
      else if val_idx = [] then Inl (ValueError NumSamples)
      else
        (case sampler_order env (length train_idx) t of
           (order, t1) \<Rightarrow>
        (case batch_sampler (nat (batch_size cfg)) order of
           [] \<Rightarrow> Inl StopIteration
         | batch # batches \<Rightarrow>
        (case fetch train_set train_idx batch of
           Inl e \<Rightarrow> Inl e
         | Inr samples \<Rightarrow>
             Inr \<lparr>runtime = new_classifier env (dropout_p cfg) (learning_rate cfg) t1,
                  history = empty_dict,
                  trial_now = trial cfg,
                  events = ev @ [PrintShapes (length samples) (length samples)]\<rparr>))))"

text \<open>Lines 128 to 203: the loop over \<^verbatim>\<open>range(epochs)\<close> from that state.\<close>

definition training_loop ::
  "('t, 'img) torch \<Rightarrow> 'h config \<Rightarrow> ('img \<times> int) list \<Rightarrow> nat list \<Rightarrow> nat list \<Rightarrow>
   ('t, 'h) run_state \<Rightarrow> error option \<times> ('t, 'h) run_state" where
  "training_loop env cfg train_set train_idx val_idx s =
     epoch_loop env train_set (nat (batch_size cfg)) train_idx val_idx (epochs cfg)
       [0..<nat (epochs cfg)] s"

text \<open>
  Lines 83 to 229: an exception before or in the loop reaches the caller, with the
  effects up to then; a loop that ran to its end is followed by \<open>finish\<close>.
\<close>

definition train_from_split ::
  "('t, 'img) torch \<Rightarrow> 'h config \<Rightarrow> ('img \<times> int) list \<Rightarrow> nat list \<Rightarrow> nat list \<Rightarrow> 't \<Rightarrow>
   't event list \<Rightarrow> (error + train_val_dict) \<times> 't event list" where
  "train_from_split env cfg train_set train_idx val_idx t ev =
     (case start_loop env cfg train_set train_idx val_idx t ev of
        Inl e \<Rightarrow> (Inl e, ev)
      | Inr s0 \<Rightarrow>
          (case training_loop env cfg train_set train_idx val_idx s0 of
             (Some e, s) \<Rightarrow> (Inl e, events s)
           | (None, s) \<Rightarrow> finish cfg s))"

text \<open>
  \<^verbatim>\<open>train_model\<close>, lines 20 to 229, on the dataset that line 71 loads: what the caller
  gets (the dictionary, or the exception that reaches them) and the effects of the run.
\<close>

definition train_model ::
  "('t, 'img) torch \<Rightarrow> 'h config \<Rightarrow> ('img \<times> int) list \<Rightarrow>
   (error + train_val_dict) \<times> 't event list" where
  "train_model env cfg train_set =
     (case split_data env cfg train_set of
        Inl e \<Rightarrow> (Inl e, azure_start cfg)
      | Inr ((train_idx, val_idx), t) \<Rightarrow>
          train_from_split env cfg train_set train_idx val_idx t
            (azure_start cfg @ [PrintLengths (length train_idx) (length val_idx)]))"

text \<open>The dictionary that reaches the caller, if one does.\<close>

definition returned_history :: "(error + train_val_dict) \<times> 't event list \<Rightarrow> train_val_dict option" where
  "returned_history r = (case fst r of Inl e \<Rightarrow> None | Inr d \<Rightarrow> Some d)"

text \<open>
  The local state of \<^verbatim>\<open>train_model\<close> at the moment the loop is left, by its end or
  by an exception, for the runs that reach the loop. It is what the four local lists
  hold then; the caller sees of it what \<open>train_model\<close> above hands on.
\<close>

definition loop_outcome ::
  "('t, 'img) torch \<Rightarrow> 'h config \<Rightarrow> ('img \<times> int) list \<Rightarrow>
   (error option \<times> ('t, 'h) run_state) option" where
  "loop_outcome env cfg train_set =
     (case split_data env cfg train_set of
        Inl e \<Rightarrow> None
      | Inr ((train_idx, val_idx), t) \<Rightarrow>
          (case start_loop env cfg train_set train_idx val_idx t
                  (azure_start cfg @ [PrintLengths (length train_idx) (length val_idx)]) of
             Inl e \<Rightarrow> None
           | Inr s0 \<Rightarrow> Some (training_loop env cfg train_set train_idx val_idx s0)))"

text \<open>
  The same for the first \<open>k\<close> rounds of the loop only: the state in which round \<open>k\<close>
  begins, if the rounds before it have passed, or the exception that ended one of them.
\<close>

definition first_epochs ::
  "('t, 'img) torch \<Rightarrow> 'h config \<Rightarrow> ('img \<times> int) list \<Rightarrow> nat \<Rightarrow>
   (error option \<times> ('t, 'h) run_state) option" where
  "first_epochs env cfg train_set k =
     (case split_data env cfg train_set of
        Inl e \<Rightarrow> None
      | Inr ((train_idx, val_idx), t) \<Rightarrow>
          (case start_loop env cfg train_set train_idx val_idx t
                  (azure_start cfg @ [PrintLengths (length train_idx) (length val_idx)]) of
             Inl e \<Rightarrow> None
           | Inr s0 \<Rightarrow>
               Some (epoch_loop env train_set (nat (batch_size cfg)) train_idx val_idx
                       (epochs cfg) [0..<k] s0)))"

text \<open>
  The state at the end of epoch \<open>k\<close>, after the summary line of line 189 and before the
  trial is looked at on line 197, for the runs that get there: \<open>k\<close> is one of the
  values of \<^verbatim>\<open>range(epochs)\<close>, the epochs before it have passed without an exception
  and without pruning, and epoch \<open>k\<close> has put its record on the lists.
\<close>

definition epoch_end ::
  "('t, 'img) torch \<Rightarrow> 'h config \<Rightarrow> ('img \<times> int) list \<Rightarrow> nat \<Rightarrow> ('t, 'h) run_state option" where
  "epoch_end env cfg train_set k =
     (if int k < epochs cfg then
        (case split_data env cfg train_set of
           Inl e \<Rightarrow> None
         | Inr ((train_idx, val_idx), t0) \<Rightarrow>
             (case first_epochs env cfg train_set k of
                Some (None, s) \<Rightarrow>
                  (case run_epoch env train_set (nat (batch_size cfg)) train_idx val_idx
                          (history s) (runtime s) of
                     Inl x \<Rightarrow> None
                   | Inr (d, t) \<Rightarrow> Some (log_epoch k (epochs cfg) d t s))
              | _ \<Rightarrow> None))
      else None)"

subsection \<open>Shapes of a metric history\<close>

text \<open>The four lists hold \<open>n\<close> entries each: \<open>n\<close> epochs are on record.\<close>

definition entries :: "train_val_dict \<Rightarrow> nat \<Rightarrow> bool" where
  "entries d n \<longleftrightarrow>
     length (train_losses d) = n \<and> length (train_accuracies d) = n \<and>
     length (val_losses d) = n \<and> length (val_accuracies d) = n"

text \<open>Every loss on record is at least 0 and every accuracy lies between 0 and 1.\<close>

definition in_range :: "train_val_dict \<Rightarrow> bool" where
  "in_range d \<longleftrightarrow>
     list_all (\<lambda>x. 0 \<le> x) (train_losses d) \<and>
     list_all (\<lambda>x. 0 \<le> x \<and> x \<le> 1) (train_accuracies d) \<and>
     list_all (\<lambda>x. 0 \<le> x) (val_losses d) \<and>
     list_all (\<lambda>x. 0 \<le> x \<and> x \<le> 1) (val_accuracies d)"

subsection \<open>What the library promises\<close>

text \<open>
  The contracts of the collaborators that some of the properties below rest on:
  \<^verbatim>\<open>randperm(n)\<close> and the sampler of a shuffling loader both yield each position below
  \<open>n\<close> exactly once.
\<close>

definition is_permutation :: "nat list \<Rightarrow> nat \<Rightarrow> bool" where
  "is_permutation xs n \<longleftrightarrow> distinct xs \<and> set xs = {..<n}"

definition shuffles :: "('t, 'img) torch \<Rightarrow> bool" where
  "shuffles env \<longleftrightarrow>
     (\<forall>n t. is_permutation (fst (randperm env n t)) n) \<and>
     (\<forall>n t. is_permutation (fst (sampler_order env n t)) n)"

text \<open>A run without pruning: no trial object, or one that never asks for it.\<close>

definition never_prunes :: "'h trial_handle option \<Rightarrow> bool" where
  "never_prunes tro \<longleftrightarrow> (case tro of None \<Rightarrow> True | Some tr \<Rightarrow> \<forall>h. \<not> should_prune tr h)"

text \<open>
  Modelled from the spec: the \<^verbatim>\<open>Classifier\<close> of \<^verbatim>\<open>src/models/Classifier.py\<close> is not
  among the source files at hand. It is described as a function "mapping an image batch
  to class log-probabilities"; no log-probability is positive, so the value that
  \<^verbatim>\<open>nn.NLLLoss\<close> gives for a batch, the mean of the negated log-probabilities of the
  labels, is never negative.
\<close>

definition nonneg_losses :: "('t, 'img) torch \<Rightarrow> bool" where
  "nonneg_losses env \<longleftrightarrow>
     (\<forall>imgs labels t. 0 \<le> fst (fst (train_step env imgs labels t))) \<and>
     (\<forall>imgs labels t. 0 \<le> fst (fst (eval_step env imgs labels t)))"

subsection \<open>A small instance\<close>

text \<open>
  Collaborators simple enough to run by hand: the runtime is a counter, the split
  permutation is the reversed range, a pass visits the positions in order, every
  prediction is class 0, and each batch has loss 1/2 in training and 1/4 in evaluation.
  The trial asks for pruning once it has received three reports.
\<close>

definition toy_torch :: "(nat, nat) torch" where
  "toy_torch =
     \<lparr>manual_seed = (\<lambda>s. nat s),
      randperm = (\<lambda>n t. (rev [0..<n], Suc t)),
      sampler_order = (\<lambda>n t. ([0..<n], Suc t)),
      new_classifier = (\<lambda>p lr t. Suc t),
      train_step = (\<lambda>imgs labels t. ((1 / 2, map (\<lambda>x. 0) imgs), Suc t)),
      eval_step = (\<lambda>imgs labels t. ((1 / 4, map (\<lambda>x. 0) imgs), t))\<rparr>"

definition toy_trial :: "nat trial_handle" where
  "toy_trial = \<lparr>handle = 0, report = (\<lambda>v e h. Suc h), should_prune = (\<lambda>h. 3 \<le> h)\<rparr>"

text \<open>
  The defaults of lines 24 to 31; the three paths have no default and are examples.
\<close>

definition default_config :: "nat config" where
  "default_config =
     \<lparr>trained_model_filepath = ''models/trained_model.pth'',
      training_statistics_filepath = ''reports/'',
      training_figures_filepath = ''reports/figures/'',
      use_azure = False, epochs = 1, learning_rate = 1 / 1000, dropout_p = 21 / 1000,
      batch_size = 250, seed = 0, trial = None, save_training_results = True\<rparr>"

definition toy_set :: "(nat \<times> int) list" where
  "toy_set = [(10, 0), (11, 1), (12, 0), (13, 0)]"

text \<open>
  Three epochs with that trial: it asks for pruning after the report of epoch 2. The
  state below is the one in which the loop is then left.
\<close>

definition pruned_config :: "nat config" where
  "pruned_config = default_config\<lparr>epochs := 3, trial := Some toy_trial\<rparr>"

definition pruned_final :: "(nat, nat) run_state" where
  "pruned_final =
     \<lparr>runtime = 12,
      history =
        \<lparr>train_losses = [1 / 2, 1 / 2, 1 / 2],
         train_accuracies = [2 / 3, 2 / 3, 2 / 3],
         val_losses = [1 / 4, 1 / 4, 1 / 4],
         val_accuracies = [1, 1, 1]\<rparr>,
      trial_now = Some (toy_trial\<lparr>handle := 3\<rparr>),
      events =
        [PrintLengths 3 1, PrintShapes 3 3,
         EpochInfo 1 3 (1 / 2) (2 / 3) (1 / 4) 1, TrialReport 1 0,
         EpochInfo 2 3 (1 / 2) (2 / 3) (1 / 4) 1, TrialReport 1 1,
         EpochInfo 3 3 (1 / 2) (2 / 3) (1 / 4) 1, TrialReport 1 2]\<rparr>"

text \<open>
  Five epochs with the same trial: it asks for pruning after the report of epoch 2,
  with epochs 3 and 4 still to come. The state below is the one at the end of epoch 2.
\<close>

definition early_pruned_config :: "nat config" where
  "early_pruned_config = default_config\<lparr>epochs := 5, trial := Some toy_trial\<rparr>"

definition end_of_epoch_2 :: "(nat, nat) run_state" where
  "end_of_epoch_2 =
     \<lparr>runtime = 12,
      history =
        \<lparr>train_losses = [1 / 2, 1 / 2, 1 / 2],
         train_accuracies = [2 / 3, 2 / 3, 2 / 3],
         val_losses = [1 / 4, 1 / 4, 1 / 4],
         val_accuracies = [1, 1, 1]\<rparr>,
      trial_now = Some (toy_trial\<lparr>handle := 2\<rparr>),
      events =
        [PrintLengths 3 1, PrintShapes 3 3,
         EpochInfo 1 5 (1 / 2) (2 / 3) (1 / 4) 1, TrialReport 1 0,
         EpochInfo 2 5 (1 / 2) (2 / 3) (1 / 4) 1, TrialReport 1 1,
         EpochInfo 3 5 (1 / 2) (2 / 3) (1 / 4) 1]\<rparr>"

text \<open>What one epoch with the default parameters puts on record for that instance.\<close>

definition one_epoch_dict :: train_val_dict where
  "one_epoch_dict =
     \<lparr>train_losses = [1 / 2], train_accuracies = [2 / 3],
      val_losses = [1 / 4], val_accuracies = [1]\<rparr>"

section \<open>Properties\<close>

subsection \<open>Batches\<close>

lemma batch_sampler_Nil [simp]: "batch_sampler b [] = []"
  by (simp add: batch_sampler.simps)

lemma batch_sampler_zero [simp]: "batch_sampler 0 xs = []"
  by (simp add: batch_sampler.simps)

lemma batch_sampler_step:
  "0 < b \<Longrightarrow> xs \<noteq> [] \<Longrightarrow> batch_sampler b xs = take b xs # batch_sampler b (drop b xs)"
  by (subst batch_sampler.simps) simp

lemma concat_batch_sampler: "0 < b \<Longrightarrow> concat (batch_sampler b xs) = xs"
proof (induction b xs rule: batch_sampler.induct)
  case (1 b xs)
  show ?case
  proof (cases "xs = []")
    case True
    then show ?thesis by simp
  next
    case False
    with 1 show ?thesis by (simp add: batch_sampler_step)
  qed
qed

lemma map_length_batch_sampler:
  "0 < b \<Longrightarrow> map length (batch_sampler b xs) =
     replicate (length xs div b) b @ (if length xs mod b = 0 then [] else [length xs mod b])"
proof (induction b xs rule: batch_sampler.induct)
  case (1 b xs)
  show ?case
  proof (cases "xs = []")
    case True
    then show ?thesis by simp
  next
    case False
    note ne = this
    show ?thesis
    proof (cases "b \<le> length xs")
      case True
      then have d: "length xs div b = Suc ((length xs - b) div b)"
        using \<open>0 < b\<close> by (simp add: le_div_geq)
      have m: "length xs mod b = (length xs - b) mod b"
        using True by (simp add: le_mod_geq)
      have "map length (batch_sampler b (drop b xs)) =
          replicate ((length xs - b) div b) b @
          (if (length xs - b) mod b = 0 then [] else [(length xs - b) mod b])"
        using 1 ne by simp
      then show ?thesis
        using ne True \<open>0 < b\<close> by (simp add: batch_sampler_step d m)
    next
      case False
      then show ?thesis
        using ne \<open>0 < b\<close> by (simp add: batch_sampler_step)
    qed
  qed
qed

lemma loader_len_eq:
  assumes "0 < b"
  shows "loader_len b n = n div b + (if n mod b = 0 then 0 else 1)"
proof (cases "n mod b = 0")
  case True
  have "n + b - 1 = (b - 1) + (n div b) * b"
    using True assms by force
  then have "(n + b - 1) div b = (b - 1) div b + n div b"
    using assms by (simp only: div_mult_self1)
  with True assms show ?thesis by (simp add: loader_len_def)
next
  case False
  have "n = n mod b + (n div b) * b" by simp
  then have "n + b - 1 = (n mod b - 1) + (Suc (n div b)) * b"
    using False by simp
  moreover have "n mod b - 1 < b" using assms by (simp add: less_imp_diff_less)
  ultimately have "(n + b - 1) div b = Suc (n div b)"
    by (simp only: div_mult_self1) simp
  with False show ?thesis by (simp add: loader_len_def)
qed

lemma length_batch_sampler:
  assumes "0 < b"
  shows "length (batch_sampler b xs) = loader_len b (length xs)"
proof -
  have "length (map length (batch_sampler b xs)) = loader_len b (length xs)"
    unfolding map_length_batch_sampler [OF assms] using loader_len_eq [OF assms, of "length xs"]
    by simp
  then show ?thesis by simp
qed

text \<open>
  Claim C9. One pass of a loader with batch size \<open>b > 0\<close> over a partition whose
  sampler order is \<open>xs\<close> (so the partition has \<open>length xs\<close> samples) yields batches whose
  lengths add up to the size of the partition: \<open>length xs div b\<close> batches of \<open>b\<close>
  samples, followed by one batch of \<open>length xs mod b\<close> samples exactly when \<open>b\<close> does not
  divide the size. No sample is dropped, and the number of batches is what
  \<^verbatim>\<open>len(loader)\<close> reports.
\<close>

theorem batch_coverage:
  assumes "0 < b"
  shows "sum_list (map length (batch_sampler b xs)) = length xs
    \<and> map length (batch_sampler b xs) =
        replicate (length xs div b) b @ (if b dvd length xs then [] else [length xs mod b])
    \<and> concat (batch_sampler b xs) = xs
    \<and> length (batch_sampler b xs) = loader_len b (length xs)"
proof -
  have c: "concat (batch_sampler b xs) = xs" using assms by (rule concat_batch_sampler)
  have "sum_list (map length (batch_sampler b xs)) = length (concat (batch_sampler b xs))"
    by (simp add: length_concat)
  then have s: "sum_list (map length (batch_sampler b xs)) = length xs" by (simp add: c)
  have m: "map length (batch_sampler b xs) =
        replicate (length xs div b) b @ (if b dvd length xs then [] else [length xs mod b])"
    using map_length_batch_sampler [OF assms, of xs] by (simp add: dvd_eq_mod_eq_0)
  have l: "length (batch_sampler b xs) = loader_len b (length xs)"
    using assms by (rule length_batch_sampler)
  from s m c l show ?thesis by blast
qed

text \<open>A partition of 103 samples in batches of 25: four full batches and one of 3.\<close>

theorem batch_coverage_witness:
  "(0::nat) < 25 \<and> map length (batch_sampler 25 [0..<103]) = [25, 25, 25, 25, 3]
     \<and> sum_list (map length (batch_sampler 25 [0..<103])) = 103"
proof -
  have l: "length [0..<103::nat] = 103" by (simp only: length_upt diff_zero)
  have r: "replicate 4 (25::nat) = [25, 25, 25, 25]"
  proof -
    have "(4::nat) = Suc (Suc (Suc (Suc 0)))" by simp
    then show ?thesis by (simp only: replicate.simps)
  qed
  have p: "(0::nat) < 25" by simp
  have "length xs = 103 \<Longrightarrow> map length (batch_sampler 25 xs) = [25, 25, 25, 25, 3]
     \<and> sum_list (map length (batch_sampler 25 xs)) = 103" for xs :: "nat list"
    using batch_coverage [OF p, of xs] by (simp add: r)
  from this [OF l] p show ?thesis by blast
qed

subsection \<open>The split sizes in double precision\<close>

lemma round53_small: "p < 2 ^ 53 \<Longrightarrow> round53 p = p"
  by (simp add: round53_def Let_def floorlog_le_iff)

lemma round_half_even_near:
  assumes "0 < s"
  shows "2 * (round_half_even p s * 2 ^ s) \<le> 2 * p + 2 ^ s"
    and "2 * p \<le> 2 * (round_half_even p s * 2 ^ s) + 2 ^ s"
proof -
  define m where "m = p div 2 ^ s"
  define r where "r = p mod 2 ^ s"
  define h :: nat where "h = 2 ^ (s - 1)"
  have p: "p = m * 2 ^ s + r" unfolding m_def r_def by (rule div_mult_mod_eq [symmetric])
  have hs: "(2::nat) ^ s = 2 * h" using assms by (simp add: h_def power_eq_if)
  have "r < 2 ^ s" by (simp add: r_def)
  then have r: "r < 2 * h" using hs by linarith
  have v: "round_half_even p s = (if h < r \<or> (r = h \<and> odd m) then m + 1 else m)"
    by (simp add: round_half_even_def Let_def m_def r_def h_def)
  define w where "w = round_half_even p s * 2 ^ s"
  have p': "p = 2 * (m * h) + r" using p hs by simp
  have w: "w = (if h < r \<or> (r = h \<and> odd m) then 2 * (m * h) + 2 * h else 2 * (m * h))"
    unfolding w_def v hs by (simp add: algebra_simps)
  have "2 * w \<le> 2 * p + 2 * h \<and> 2 * p \<le> 2 * w + 2 * h"
    using r unfolding w p' by (auto split: if_splits)
  then show "2 * (round_half_even p s * 2 ^ s) \<le> 2 * p + 2 ^ s"
    and "2 * p \<le> 2 * (round_half_even p s * 2 ^ s) + 2 ^ s"
    unfolding w_def hs by simp_all
qed

lemma round_half_even_exact:
  assumes "0 < s" and "p + d = k * 2 ^ s" and "2 * d < 2 ^ s"
  shows "round_half_even p s * 2 ^ s = k * 2 ^ s"
proof (cases "d = 0")
  case True
  with assms have "p = k * 2 ^ s" by simp
  then have "p div 2 ^ s = k" "p mod 2 ^ s = 0" by simp_all
  then show ?thesis by (simp add: round_half_even_def Let_def)
next
  case False
  define h :: nat where "h = 2 ^ (s - 1)"
  have hs: "(2::nat) ^ s = 2 * h" using assms by (simp add: h_def power_eq_if)
  have "0 < k" using assms False by (cases k) auto
  then obtain k' where k: "k = Suc k'" by (cases k) auto
  have "p = k' * 2 ^ s + (2 ^ s - d)" using assms k by (simp add: algebra_simps)
  moreover have "2 ^ s - d < (2::nat) ^ s" using False assms by simp
  ultimately have "p div 2 ^ s = k'" "p mod 2 ^ s = 2 ^ s - d" by simp_all
  moreover have "h < 2 ^ s - d" using assms hs by simp
  ultimately show ?thesis by (simp add: round_half_even_def Let_def h_def k)
qed


lemma int_085_eq:
  assumes n: "n < 2 ^ 48"
  shows "int_085 n = 17 * n div 20"
proof -
  define p where "p = double_085 * n"
  define q where "q = 17 * n div 20"
  define r where "r = 17 * n mod 20"
  have qr: "17 * n = 20 * q + r" and r20: "r < 20"
    by (simp_all add: q_def r_def)
  have n53: "round53 n = n"
    using n by (intro round53_small) (rule less_trans, assumption, simp)
  have i: "int_085 n = round53 p div 2 ^ 53"
    by (simp add: int_085_def n53 p_def)
  have "20 * p + 4 * n = 9007199254740992 * (20 * q + r)"
    unfolding qr [symmetric] p_def double_085_def by simp
  then have id: "20 * p + 4 * n = 180143985094819840 * q + 9007199254740992 * r"
    by simp
  have nb: "n < 281474976710656" using n by simp
  show ?thesis
  proof (cases "p < 2 ^ 53")
    case True
    then have "round53 p = p" by (rule round53_small)
    moreover have "p < 9007199254740992" using True by simp
    moreover from this have "n \<le> 1" unfolding p_def double_085_def by simp
    then have "q = 0" unfolding q_def by simp
    ultimately show ?thesis using i q_def by simp
  next
    case False
    define l where "l = floorlog 2 p"
    define s where "s = l - 53"
    have pos: "0 < p" using False by (cases p) auto
    have l53: "53 < l"
      using False unfolding l_def by (simp add: floorlog_le_iff not_le [symmetric])
    then have s0: "0 < s" and ls: "l = s + 53" by (simp_all add: s_def)
    have "2 ^ (l - 1) \<le> p" and pl: "p < 2 ^ l"
      using floorlog_bounds [of p 2] pos by (simp_all add: l_def)
    then have lo: "2 ^ s * 4503599627370496 \<le> p"
      by (simp add: ls power_add)
    have hi: "p < 2 ^ s * 9007199254740992"
      using pl by (simp add: ls power_add)
    define X :: nat where "X = 2 ^ s"
    define w where "w = round_half_even p s * 2 ^ s"
    have rw: "round53 p = w"
      using l53 by (simp add: round53_def Let_def l_def [symmetric] s_def [symmetric] w_def)
    have near: "2 * w \<le> 2 * p + X" "2 * p \<le> 2 * w + X"
      using round_half_even_near [OF s0, of p] by (simp_all add: w_def X_def)
    have lo': "X * 4503599627370496 \<le> p" and hi': "p < X * 9007199254740992"
      using lo hi by (simp_all add: X_def)
    have pM: "p = 7656119366529843 * n" by (simp add: p_def double_085_def)
    have X17: "10 * X \<le> 17 * n" using lo' pM by linarith
    have upper: "w < 9007199254740992 * q + 9007199254740992"
      using near id r20 nb X17 by linarith
    have lower: "9007199254740992 * q \<le> w"
    proof (cases "r = 0")
      case False
      then show ?thesis using near id r20 nb X17 by linarith
    next
      case True
      have s53: "s \<le> 53"
      proof (rule ccontr)
        assume "\<not> s \<le> 53"
        then have "54 \<le> s" by simp
        then have "(2::nat) ^ 54 \<le> 2 ^ s" by (rule power_increasing) simp
        then have "18014398509481984 \<le> X" by (simp add: X_def)
        with lo' pM nb show False by linarith
      qed
      define d where "d = n div 5"
      have "17 * n mod 20 = 0" using True by (simp add: r_def)
      then have "n mod 5 = 0" by presburger
      then have d: "n = 5 * d" by (simp add: d_def dvd_eq_mod_eq_0 [symmetric])
      have pd: "p + d = (q * 2 ^ (53 - s)) * 2 ^ s"
      proof -
        have "(2::nat) ^ (53 - s) * 2 ^ s = 2 ^ 53"
          using s53 by (simp add: power_add [symmetric])
        then have e: "(2::nat) ^ (53 - s) * 2 ^ s = 9007199254740992" by simp
        have a: "(q * 2 ^ (53 - s)) * 2 ^ s = q * 9007199254740992"
          unfolding mult.assoc e ..
        have "20 * (p + d) = 20 * (q * 9007199254740992)"
          using id True d by simp
        then have "p + d = q * 9007199254740992" by simp
        with a show ?thesis by (simp only:)
      qed
      have "2 * d < X" using hi' pM d by linarith
      then have "2 * d < 2 ^ s" by (simp add: X_def)
      from round_half_even_exact [OF s0 pd this]
      have "w = (q * 2 ^ (53 - s)) * 2 ^ s" by (simp only: w_def)
      also have "\<dots> = q * (2 ^ (53 - s) * 2 ^ s)" by (simp only: mult.assoc)
      also have "\<dots> = q * 2 ^ 53" using s53 by (simp only: power_add [symmetric]) simp
      finally show ?thesis by simp
    qed
    have "w div 9007199254740992 = q"
      using lower upper by (intro div_nat_eqI) (simp_all add: algebra_simps)
    then show ?thesis using i rw q_def by simp
  qed
qed

subsection \<open>The split\<close>

lemma floor_085: "nat \<lfloor>(85 / 100) * real n\<rfloor> = 17 * n div 20"
proof -
  have "(85 / 100) * real n = real (17 * n) / real 20" by simp
  then have "\<lfloor>(85 / 100) * real n\<rfloor> = \<lfloor>real (17 * n) / real 20\<rfloor>" by simp
  also have "\<dots> = int (17 * n div 20)" by (rule floor_divide_of_nat_eq)
  finally show ?thesis by simp
qed

lemma round53_upper: "9007199254740992 * round53 p \<le> 9007199254740993 * p"
proof (cases "p < 2 ^ 53")
  case True
  then show ?thesis by (simp add: round53_small)
next
  case False
  define l where "l = floorlog 2 p"
  define s where "s = l - 53"
  have pos: "0 < p" using False by (cases p) auto
  have l53: "53 < l"
    using False unfolding l_def by (simp add: floorlog_le_iff not_le [symmetric])
  then have s0: "0 < s" and ls: "l = s + 53" by (simp_all add: s_def)
  have "2 ^ (l - 1) \<le> p"
    using floorlog_bounds [of p 2] pos by (simp add: l_def)
  then have lo: "2 ^ s * 4503599627370496 \<le> p"
    by (simp add: ls power_add)
  define X :: nat where "X = 2 ^ s"
  define w where "w = round_half_even p s * 2 ^ s"
  have rw: "round53 p = w"
    using l53 by (simp add: round53_def Let_def l_def [symmetric] s_def [symmetric] w_def)
  have near: "2 * w \<le> 2 * p + X"
    using round_half_even_near(1) [OF s0, of p] by (simp add: w_def X_def)
  have lo': "X * 4503599627370496 \<le> p" using lo by (simp add: X_def)
  from near lo' have "9007199254740992 * w \<le> 9007199254740993 * p" by linarith
  then show ?thesis by (simp add: rw)
qed

lemma int_085_le: "int_085 n \<le> n"
proof -
  define m where "m = round53 n"
  define w where "w = round53 (7656119366529843 * m)"
  have a: "9007199254740992 * (w div 9007199254740992) \<le> w" by simp
  have b: "9007199254740992 * w \<le> 9007199254740993 * (7656119366529843 * m)"
    unfolding w_def by (rule round53_upper)
  have c: "9007199254740992 * m \<le> 9007199254740993 * n"
    unfolding m_def by (rule round53_upper)
  have "int_085 n = w div 9007199254740992"
    by (simp add: int_085_def double_085_def w_def m_def)
  moreover from a b c have "w div 9007199254740992 \<le> n" by linarith
  ultimately show ?thesis by simp
qed

lemma dataset_splitter_total: "\<exists>r. dataset_splitter env n t = Inr r"
  using int_085_le [of n]
  by (simp add: dataset_splitter_def random_split_def Let_def split: prod.splits)

lemma dataset_splitter_eq:
  assumes "n < 2 ^ 48"
  shows "dataset_splitter env n t =
    Inr ((take (17 * n div 20) (fst (randperm env n t)),
          drop (17 * n div 20) (take n (fst (randperm env n t)))),
         snd (randperm env n t))"
proof -
  have "17 * n div 20 \<le> n" by simp
  then show ?thesis
    using assms by (simp add: dataset_splitter_def random_split_def int_085_eq Let_def split: prod.splits)
qed

text \<open>
  Claim C7. The fraction is the constant 0.85 of line 77. For every dataset length
  \<open>n\<close> below \<open>2 ^ 48\<close> and every state of the generator in which \<^verbatim>\<open>randperm\<close> yields a
  permutation of the positions below \<open>n\<close>, the splitter succeeds, the training
  partition has exactly \<open>\<lfloor>0.85 n\<rfloor>\<close> indices and the validation partition the other
  \<open>n - \<lfloor>0.85 n\<rfloor>\<close>, the two are disjoint, and together they are all positions below \<open>n\<close>.
\<close>

theorem split_partition:
  assumes "n < 2 ^ 48" and "is_permutation (fst (randperm env n t)) n"
  shows "\<exists>training validation t'.
     dataset_splitter env n t = Inr ((training, validation), t')
     \<and> length training = nat \<lfloor>(85 / 100) * real n\<rfloor>
     \<and> length validation = n - nat \<lfloor>(85 / 100) * real n\<rfloor>
     \<and> set training \<inter> set validation = {}
     \<and> set training \<union> set validation = {..<n}
     \<and> distinct training \<and> distinct validation"
proof -
  define p where "p = fst (randperm env n t)"
  define k where "k = 17 * n div 20"
  have d: "distinct p" and s: "set p = {..<n}"
    using assms(2) by (simp_all add: is_permutation_def p_def)
  have "card (set p) = length p" using d by (rule distinct_card)
  then have l: "length p = n" by (simp add: s)
  have kn: "k \<le> n" by (simp add: k_def)
  have tk: "take n p = p" using l by simp
  have "distinct (take k p @ drop k p)" using d by simp
  then have i: "set (take k p) \<inter> set (drop k p) = {}"
    and dt: "distinct (take k p)" and dd: "distinct (drop k p)"
    by (simp_all only: distinct_append) 
  have "set (take k p @ drop k p) = {..<n}" using s by simp
  then have u: "set (take k p) \<union> set (drop k p) = {..<n}" by (simp only: set_append)
  have e: "dataset_splitter env n t = Inr ((take k p, drop k p), snd (randperm env n t))"
    using dataset_splitter_eq [OF assms(1), of env t] by (simp add: p_def [symmetric] k_def [symmetric] tk)
  have lt: "length (take k p) = k" using l kn by simp
  have ld: "length (drop k p) = n - k" using l by simp
  show ?thesis
    unfolding floor_085 k_def [symmetric] using e lt ld i u dt dd by blast
qed

text \<open>A dataset of 1000 samples: 850 for training, 150 for validation.\<close>

lemma toy_is_permutation: "is_permutation (rev [0..<n]) n"
  by (auto simp: is_permutation_def)

theorem split_partition_witness:
  "(1000::nat) < 2 ^ 48 \<and> is_permutation (fst (randperm toy_torch 1000 0)) 1000 \<and>
   (\<exists>training validation t'.
     dataset_splitter toy_torch 1000 0 = Inr ((training, validation), t')
     \<and> length training = 850 \<and> length validation = 150
     \<and> set training \<inter> set validation = {}
     \<and> set training \<union> set validation = {..<1000})"
proof -
  have a: "(1000::nat) < 2 ^ 48" by simp
  have b: "is_permutation (fst (randperm toy_torch 1000 0)) 1000"
    by (simp add: toy_torch_def toy_is_permutation)
  have c: "nat \<lfloor>(85 / 100) * real (1000::nat)\<rfloor> = 850" by simp
  show ?thesis
    using split_partition [OF a b] a b unfolding c by auto
qed

text \<open>
  Claim C6. Two invocations of the split for datasets of the same length yield the same
  training and validation indices (and leave the generator in the same state), whatever
  else differs between the two calls: the other parameters, the seed that is passed, the
  samples themselves. The fraction and the seed are the constants 0.85 and 0 of lines
  77 and 40, and the generator is seeded just before the split on every call, so
  nothing outside the call can reach the permutation.
\<close>

theorem split_deterministic:
  "length ds1 = length ds2 \<Longrightarrow> split_data env cfg1 ds1 = split_data env cfg2 ds2"
  by (simp add: split_data_def seed_generators_def)

subsection \<open>The seed\<close>

lemma seed_generators_const: "seed_generators env cfg = manual_seed env 0"
  by (simp add: seed_generators_def)

lemma seed_irrelevant_parts:
  "azure_start (cfg\<lparr>seed := s\<rparr>) = azure_start cfg"
  "start_loop env (cfg\<lparr>seed := s\<rparr>) ds tr va t ev = start_loop env cfg ds tr va t ev"
  "training_loop env (cfg\<lparr>seed := s\<rparr>) ds tr va st = training_loop env cfg ds tr va st"
  "finish (cfg\<lparr>seed := s\<rparr>) st = finish cfg st"
  "split_data env (cfg\<lparr>seed := s\<rparr>) ds = split_data env cfg ds"
  by (simp_all add: azure_start_def start_loop_def training_loop_def finish_def
      split_data_def seed_generators_const split: prod.splits list.splits sum.splits)

lemma seed_irrelevant_run:
  "train_model env (cfg\<lparr>seed := s\<rparr>) ds = train_model env cfg ds"
  "loop_outcome env (cfg\<lparr>seed := s\<rparr>) ds = loop_outcome env cfg ds"
  by (simp_all add: train_model_def loop_outcome_def train_from_split_def seed_irrelevant_parts
      split: prod.splits sum.splits option.splits)

text \<open>
  Claim C5. Two calls of \<^verbatim>\<open>train_model\<close> that differ only in the value passed for
  \<^verbatim>\<open>seed\<close> have the same result, the same effects in the same order, the same split and
  the same state when the loop is left: line 40 overwrites the parameter with 0 before
  the generators are seeded.
\<close>

theorem seed_is_ignored:
  "train_model env (cfg\<lparr>seed := s1\<rparr>) ds = train_model env (cfg\<lparr>seed := s2\<rparr>) ds
   \<and> split_data env (cfg\<lparr>seed := s1\<rparr>) ds = split_data env (cfg\<lparr>seed := s2\<rparr>) ds
   \<and> loop_outcome env (cfg\<lparr>seed := s1\<rparr>) ds = loop_outcome env (cfg\<lparr>seed := s2\<rparr>) ds"
  by (simp add: seed_irrelevant_run seed_irrelevant_parts)

text \<open>Two datasets of four samples, split under different seeds and batch sizes.\<close>

theorem split_deterministic_witness:
  "length toy_set = length [(20::nat, 1::int), (21, 1), (22, 1), (23, 1)] \<and>
   split_data toy_torch default_config toy_set =
   split_data toy_torch (default_config\<lparr>seed := 7, batch_size := 2\<rparr>)
     [(20, 1), (21, 1), (22, 1), (23, 1)]"
proof -
  have l: "length toy_set = length [(20::nat, 1::int), (21, 1), (22, 1), (23, 1)]"
    by (simp add: toy_set_def)
  from split_deterministic [OF l] l show ?thesis by blast
qed

subsection \<open>The split as a function of the length\<close>

lemma split_data_eq:
  assumes "length ds < 2 ^ 48"
  shows "split_data env cfg ds =
    Inr ((take (17 * length ds div 20) (fst (randperm env (length ds) (manual_seed env 0))),
          drop (17 * length ds div 20)
            (take (length ds) (fst (randperm env (length ds) (manual_seed env 0))))),
         snd (randperm env (length ds) (manual_seed env 0)))"
  using dataset_splitter_eq [OF assms] by (simp add: split_data_def seed_generators_const)

lemma split_data_total: "\<exists>r. split_data env cfg ds = Inr r"
  using dataset_splitter_total [of env "length ds"] by (simp add: split_data_def)

subsection \<open>The number of records\<close>

lemma finalize_entries:
  "finalize d a b c e k l m n = Inr d' \<Longrightarrow> entries d i \<Longrightarrow> entries d' (Suc i)"
  by (auto simp: finalize_def entries_def split: sum.splits)

lemma run_epoch_entries:
  "run_epoch env ds b tri vai d t = Inr (d', t') \<Longrightarrow> entries d i \<Longrightarrow> entries d' (Suc i)"
  by (auto simp: run_epoch_def split: prod.splits sum.splits dest: finalize_entries)

lemma fetch_error: "fetch ds idx batch = Inl e \<Longrightarrow> e = IndexError"
  by (induction batch arbitrary: e)
    (auto simp: subset_getitem_def split: sum.splits if_splits)

lemma data_pass_error:
  "data_pass step ds idx batches l c t = Inl (e, t') \<Longrightarrow> e = IndexError"
  by (induction batches arbitrary: l c t)
    (auto split: sum.splits prod.splits dest: fetch_error)

lemma finalize_error:
  "finalize d a b c e k l m n = Inl (err, d') \<Longrightarrow>
   err = ZeroDivisionError \<and> (k = 0 \<or> l = 0 \<or> m = 0 \<or> n = 0)"
  by (auto simp: finalize_def py_truediv_def split: sum.splits if_splits)

lemma run_epoch_error:
  "run_epoch env ds b tri vai d t = Inl (e, d', t') \<Longrightarrow>
   e = IndexError \<or> e = ZeroDivisionError"
  by (auto simp: run_epoch_def split: prod.splits sum.splits
      dest: data_pass_error finalize_error)

lemma loader_len_pos: "0 < b \<Longrightarrow> 0 < n \<Longrightarrow> 0 < loader_len b n"
  by (simp add: loader_len_def div_greater_zero_iff)

lemma run_epoch_no_division_by_zero:
  assumes "run_epoch env ds b tri vai d t = Inl (e, d', t')"
    and "0 < b" and "tri \<noteq> []" and "vai \<noteq> []"
  shows "e = IndexError"
proof -
  have "0 < loader_len b (length tri)" "0 < loader_len b (length vai)"
    using assms(2-4) by (simp_all add: loader_len_pos)
  with assms(1,3,4) show ?thesis
    by (auto simp: run_epoch_def split: prod.splits sum.splits
        dest: data_pass_error finalize_error)
qed

lemma log_epoch_simps [simp]:
  "history (log_epoch e n d t s) = d"
  "runtime (log_epoch e n d t s) = t"
  "trial_now (log_epoch e n d t s) = trial_now s"
  "events (log_epoch e n d t s) =
     events s @ [EpochInfo (e + 1) n (last (train_losses d)) (last (train_accuracies d))
        (last (val_losses d)) (last (val_accuracies d))]"
  by (simp_all add: log_epoch_def)

lemma report_epoch_simps [simp]:
  "history (report_epoch e tr s) = history s"
  "runtime (report_epoch e tr s) = runtime s"
  "trial_now (report_epoch e tr s) = Some (after_report (last (val_accuracies (history s))) e tr)"
  "events (report_epoch e tr s) =
     events s @ [TrialReport (last (val_accuracies (history s))) e]"
  by (simp_all add: report_epoch_def)

lemma epoch_loop_completed:
  "epoch_loop env ds b tri vai n es s = (None, s') \<Longrightarrow> entries (history s) i \<Longrightarrow>
   entries (history s') (i + length es)"
proof (induction es arbitrary: s i)
  case Nil
  then show ?case by simp
next
  case (Cons e es)
  from Cons.prems(1) obtain d t where
    r: "run_epoch env ds b tri vai (history s) (runtime s) = Inr (d, t)"
    by (auto split: sum.splits)
  from run_epoch_entries [OF r Cons.prems(2)] have d: "entries d (Suc i)" .
  show ?case
  proof (cases "trial_now s")
    case None
    with Cons.prems(1) r
    have "epoch_loop env ds b tri vai n es (log_epoch e n d t s) = (None, s')" by simp
    from Cons.IH [OF this, of "Suc i"] d show ?thesis by simp
  next
    case (Some tr)
    with Cons.prems(1) r
    have "epoch_loop env ds b tri vai n es (report_epoch e tr (log_epoch e n d t s)) = (None, s')"
      by (simp split: if_splits)
    from Cons.IH [OF this, of "Suc i"] d show ?thesis by simp
  qed
qed

lemma epoch_loop_pruned:
  "epoch_loop env ds b tri vai n es s = (Some TrialPruned, s') \<Longrightarrow> entries (history s) i \<Longrightarrow>
   \<exists>pre k post. es = pre @ k # post \<and> entries (history s') (Suc (i + length pre))
     \<and> history s' \<noteq> empty_dict
     \<and> last (events s') = TrialReport (last (val_accuracies (history s'))) k"
proof (induction es arbitrary: s i)
  case Nil
  then show ?case by simp
next
  case (Cons e es)
  from Cons.prems(1) obtain d t where
    r: "run_epoch env ds b tri vai (history s) (runtime s) = Inr (d, t)"
    by (auto split: sum.splits prod.splits dest: run_epoch_error)
  from run_epoch_entries [OF r Cons.prems(2)] have d: "entries d (Suc i)" .
  then have ne: "d \<noteq> empty_dict" by (auto simp: entries_def empty_dict_def)
  show ?case
  proof (cases "trial_now s")
    case None
    with Cons.prems(1) r
    have "epoch_loop env ds b tri vai n es (log_epoch e n d t s) = (Some TrialPruned, s')"
      by simp
    from Cons.IH [OF this, of "Suc i"] d obtain pre k post where
      "es = pre @ k # post" "entries (history s') (Suc (Suc i + length pre))"
      "history s' \<noteq> empty_dict"
      "last (events s') = TrialReport (last (val_accuracies (history s'))) k"
      by auto
    then have "e # es = (e # pre) @ k # post \<and> entries (history s') (Suc (i + length (e # pre)))
      \<and> history s' \<noteq> empty_dict
      \<and> last (events s') = TrialReport (last (val_accuracies (history s'))) k"
      by simp
    then show ?thesis by blast
  next
    case (Some tr)
    show ?thesis
    proof (cases "should_prune tr (handle (after_report (last (val_accuracies d)) e tr))")
      case True
      with Cons.prems(1) r Some
      have "s' = report_epoch e tr (log_epoch e n d t s)" by simp
      then have "e # es = [] @ e # es \<and> entries (history s') (Suc (i + length ([]::nat list)))
        \<and> history s' \<noteq> empty_dict
        \<and> last (events s') = TrialReport (last (val_accuracies (history s'))) e"
        using d ne by simp
      then show ?thesis by blast
    next
      case False
      with Cons.prems(1) r Some
      have "epoch_loop env ds b tri vai n es (report_epoch e tr (log_epoch e n d t s))
        = (Some TrialPruned, s')"
        by simp
      from Cons.IH [OF this, of "Suc i"] d obtain pre k post where
        "es = pre @ k # post" "entries (history s') (Suc (Suc i + length pre))"
        "history s' \<noteq> empty_dict"
        "last (events s') = TrialReport (last (val_accuracies (history s'))) k"
        by auto
      then have "e # es = (e # pre) @ k # post \<and> entries (history s') (Suc (i + length (e # pre)))
        \<and> history s' \<noteq> empty_dict
        \<and> last (events s') = TrialReport (last (val_accuracies (history s'))) k"
        by simp
      then show ?thesis by blast
    qed
  qed
qed

lemma epoch_loop_no_artifacts:
  "epoch_loop env ds b tri vai n es s = (r, s') \<Longrightarrow>
   filter persists (events s') = filter persists (events s)"
proof (induction es arbitrary: s)
  case Nil
  then show ?case by simp
next
  case (Cons e es)
  show ?case
  proof (cases "run_epoch env ds b tri vai (history s) (runtime s)")
    case (Inl x)
    with Cons.prems show ?thesis by (cases x) auto
  next
    case (Inr p)
    obtain d t where p: "p = (d, t)" by (cases p)
    show ?thesis
    proof (cases "trial_now s")
      case None
      with Cons.prems Inr p
      have "epoch_loop env ds b tri vai n es (log_epoch e n d t s) = (r, s')" by simp
      from Cons.IH [OF this] show ?thesis by simp
    next
      case (Some tr)
      show ?thesis
      proof (cases "should_prune tr (handle (after_report (last (val_accuracies d)) e tr))")
        case True
        with Cons.prems Inr p Some show ?thesis by auto
      next
        case False
        with Cons.prems Inr p Some
        have "epoch_loop env ds b tri vai n es (report_epoch e tr (log_epoch e n d t s)) = (r, s')"
          by simp
        from Cons.IH [OF this] show ?thesis by simp
      qed
    qed
  qed
qed

lemma upt_split_index: "[0..<m] = pre @ k # post \<Longrightarrow> k = length pre \<and> k < m"
proof -
  assume a: "[0..<m] = pre @ k # post"
  then have "length [0..<m] = length (pre @ k # post)" by simp
  then have l: "length pre < m" by simp
  have "[0..<m] ! length pre = k" unfolding a by simp
  with l show ?thesis by simp
qed


subsection \<open>From the loop to the caller\<close>

lemma start_loop_state:
  assumes "start_loop env cfg ds tri vai t ev = Inr s0"
  shows "history s0 = empty_dict" and "trial_now s0 = trial cfg"
    and "\<exists>k. events s0 = ev @ [PrintShapes k k]" and "0 < batch_size cfg" and "tri \<noteq> []"
    and "vai \<noteq> []"
  using assms
  by (auto simp: start_loop_def split: if_splits prod.splits list.splits sum.splits)

lemma azure_start_no_artifacts: "filter persists (azure_start cfg) = []"
  by (simp add: azure_start_def)

lemma save_results_artifacts:
  "filter persists (save_results a b c m d az) = save_results a b c m d az"
  "save_results a b c m d az \<noteq> []"
  by (simp_all add: save_results_def)

lemma loop_outcome_run:
  fixes env :: "('t, 'img) torch"
  assumes "loop_outcome env cfg ds = Some (r, s)"
  shows "\<exists>tri vai t s0 k.
    split_data env cfg ds = Inr ((tri, vai), t)
    \<and> start_loop env cfg ds tri vai t (azure_start cfg @ [PrintLengths (length tri) (length vai)])
        = Inr s0
    \<and> history s0 = empty_dict \<and> trial_now s0 = trial cfg
    \<and> events s0 = azure_start cfg @ [PrintLengths (length tri) (length vai), PrintShapes k k]
    \<and> training_loop env cfg ds tri vai s0 = (r, s)
    \<and> train_model env cfg ds = (case r of Some e \<Rightarrow> (Inl e, events s) | None \<Rightarrow> finish cfg s)"
proof -
  from assms obtain tri vai t where
    sp: "split_data env cfg ds = Inr ((tri, vai), t)"
    by (auto simp: loop_outcome_def split: sum.splits)
  define ev :: "'t event list"
    where "ev = azure_start cfg @ [PrintLengths (length tri) (length vai)]"
  from assms sp obtain s0 where
    st: "start_loop env cfg ds tri vai t ev = Inr s0"
    and lp: "training_loop env cfg ds tri vai s0 = (r, s)"
    by (auto simp: loop_outcome_def ev_def split: sum.splits)
  from start_loop_state [OF st] obtain k where
    h: "history s0 = empty_dict" "trial_now s0 = trial cfg"
    and e: "events s0 = ev @ [PrintShapes k k]"
    by auto
  have tm: "train_model env cfg ds = (case r of Some e \<Rightarrow> (Inl e, events s) | None \<Rightarrow> finish cfg s)"
    using sp st lp
    by (simp add: train_model_def train_from_split_def ev_def split: option.splits)
  from sp st h e lp tm show ?thesis unfolding ev_def by auto
qed

lemma returned_dict_run:
  fixes env :: "('t, 'img) torch"
  assumes "fst (train_model env cfg ds) = Inr d"
  shows "\<exists>s. loop_outcome env cfg ds = Some (None, s) \<and> history s = d
    \<and> train_model env cfg ds = finish cfg s"
proof -
  from assms obtain tri vai t where
    sp: "split_data env cfg ds = Inr ((tri, vai), t)"
    by (auto simp: train_model_def split: sum.splits)
  define ev :: "'t event list"
    where "ev = azure_start cfg @ [PrintLengths (length tri) (length vai)]"
  from assms sp obtain s0 where
    st: "start_loop env cfg ds tri vai t ev = Inr s0"
    by (auto simp: train_model_def train_from_split_def ev_def split: sum.splits)
  obtain r s where lp: "training_loop env cfg ds tri vai s0 = (r, s)"
    by (cases "training_loop env cfg ds tri vai s0")
  from assms sp st lp have r: "r = None" and d: "history s = d"
    by (auto simp: train_model_def train_from_split_def ev_def finish_def split: option.splits)
  have "loop_outcome env cfg ds = Some (None, s)"
    using sp st lp r by (simp add: loop_outcome_def ev_def)
  moreover have "train_model env cfg ds = finish cfg s"
    using sp st lp r by (simp add: train_model_def train_from_split_def ev_def)
  ultimately show ?thesis using d by blast
qed

lemma state_when_pruned:
  assumes "loop_outcome env cfg ds = Some (Some TrialPruned, s)"
  shows "train_model env cfg ds = (Inl TrialPruned, events s)"
    and "filter persists (events s) = []"
    and "\<exists>k. int k < epochs cfg
          \<and> last (events s) = TrialReport (last (val_accuracies (history s))) k
          \<and> entries (history s) (Suc k)"
proof -
  from loop_outcome_run [OF assms] obtain tri vai s0 k where
    h: "history s0 = empty_dict"
    and e: "events s0 = azure_start cfg @ [PrintLengths (length tri) (length vai), PrintShapes k k]"
    and lp: "training_loop env cfg ds tri vai s0 = (Some TrialPruned, s)"
    and tm: "train_model env cfg ds = (Inl TrialPruned, events s)"
    by auto
  show "train_model env cfg ds = (Inl TrialPruned, events s)" by (rule tm)
  have "filter persists (events s) = filter persists (events s0)"
    using lp unfolding training_loop_def by (rule epoch_loop_no_artifacts)
  then show "filter persists (events s) = []"
    by (simp add: e azure_start_no_artifacts)
  have "entries (history s0) 0" by (simp add: h entries_def empty_dict_def)
  from epoch_loop_pruned [OF lp [unfolded training_loop_def] this]
  obtain pre j post where
    u: "[0..<nat (epochs cfg)] = pre @ j # post"
    and n: "entries (history s) (Suc (0 + length pre))"
    and l: "last (events s) = TrialReport (last (val_accuracies (history s))) j"
    by blast
  from upt_split_index [OF u] have "j = length pre" "j < nat (epochs cfg)" by simp_all
  with n l have "int j < epochs cfg
      \<and> last (events s) = TrialReport (last (val_accuracies (history s))) j
      \<and> entries (history s) (Suc j)"
    by simp
  then show "\<exists>k. int k < epochs cfg
          \<and> last (events s) = TrialReport (last (val_accuracies (history s))) k
          \<and> entries (history s) (Suc k)" ..
qed

lemma returned_entries:
  assumes "fst (train_model env cfg ds) = Inr d"
  shows "entries d (nat (epochs cfg))"
proof -
  from returned_dict_run [OF assms] obtain s where
    lo: "loop_outcome env cfg ds = Some (None, s)" and d: "history s = d"
    by blast
  from loop_outcome_run [OF lo] obtain tri vai s0 where
    h: "history s0 = empty_dict"
    and lp: "training_loop env cfg ds tri vai s0 = (None, s)"
    by auto
  have "entries (history s0) 0" by (simp add: h entries_def empty_dict_def)
  from epoch_loop_completed [OF lp [unfolded training_loop_def] this]
  show ?thesis by (simp add: d)
qed


subsection \<open>Runs that complete\<close>

lemma is_permutation_length: "is_permutation xs n \<Longrightarrow> length xs = n"
proof -
  assume "is_permutation xs n"
  then have "distinct xs" "set xs = {..<n}" by (simp_all add: is_permutation_def)
  from distinct_card [OF this(1)] this(2) show ?thesis by simp
qed

lemma fetch_ok:
  "\<forall>i\<in>set batch. i < length idx \<and> idx ! i < length ds \<Longrightarrow>
   \<exists>xs. fetch ds idx batch = Inr xs"
  by (induction batch) (auto simp: subset_getitem_def)

lemma fetch_length: "fetch ds idx batch = Inr xs \<Longrightarrow> length xs = length batch"
  by (induction batch arbitrary: xs) (auto split: sum.splits)

lemma data_pass_ok:
  "\<forall>batch\<in>set batches. \<forall>i\<in>set batch. i < length idx \<and> idx ! i < length ds \<Longrightarrow>
   \<exists>r. data_pass step ds idx batches l c t = Inr r"
proof (induction batches arbitrary: l c t)
  case Nil
  then show ?case by simp
next
  case (Cons batch batches)
  then have "\<forall>i\<in>set batch. i < length idx \<and> idx ! i < length ds" by simp
  from fetch_ok [OF this] obtain xs where f: "fetch ds idx batch = Inr xs" ..
  obtain lo tc t' where s: "step (map fst xs) (map snd xs) t = ((lo, tc), t')"
    by (metis surj_pair)
  from Cons.prems have "\<forall>batch\<in>set batches. \<forall>i\<in>set batch. i < length idx \<and> idx ! i < length ds"
    by simp
  from Cons.IH [OF this] show ?case by (simp add: f s)
qed

lemma set_batch_sampler:
  "batch \<in> set (batch_sampler b xs) \<Longrightarrow> i \<in> set batch \<Longrightarrow> i \<in> set xs"
proof (cases "0 < b")
  case True
  assume "batch \<in> set (batch_sampler b xs)" "i \<in> set batch"
  then have "i \<in> set (concat (batch_sampler b xs))" by auto
  then show ?thesis by (simp add: concat_batch_sampler [OF True])
next
  case False
  assume "batch \<in> set (batch_sampler b xs)"
  with False show ?thesis by (simp add: batch_sampler.simps)
qed

lemma pass_indices_ok:
  assumes "is_permutation order (length idx)" and "\<forall>j\<in>set idx. j < length ds"
  shows "\<forall>batch\<in>set (batch_sampler b order). \<forall>i\<in>set batch. i < length idx \<and> idx ! i < length ds"
proof (intro ballI)
  fix batch i
  assume "batch \<in> set (batch_sampler b order)" "i \<in> set batch"
  then have "i \<in> set order" by (rule set_batch_sampler)
  then have "i < length idx" using assms(1) by (simp add: is_permutation_def)
  then show "i < length idx \<and> idx ! i < length ds" using assms(2) by simp
qed

lemma finalize_ok:
  "0 < k \<Longrightarrow> 0 < l \<Longrightarrow> 0 < m \<Longrightarrow> 0 < n \<Longrightarrow> \<exists>d'. finalize d a b c e k l m n = Inr d'"
  by (simp add: finalize_def py_truediv_def)

lemma run_epoch_ok:
  assumes "shuffles env" and "0 < b" and "tri \<noteq> []" and "vai \<noteq> []"
    and "\<forall>j\<in>set tri. j < length ds" and "\<forall>j\<in>set vai. j < length ds"
  shows "\<exists>r. run_epoch env ds b tri vai d t = Inr r"
proof -
  obtain order t1 where o: "sampler_order env (length tri) t = (order, t1)"
    by (cases "sampler_order env (length tri) t")
  have "is_permutation (fst (sampler_order env (length tri) t)) (length tri)"
    using assms(1) by (simp add: shuffles_def)
  then have "is_permutation order (length tri)" by (simp add: o)
  then have "\<exists>r. data_pass (train_step env) ds tri (batch_sampler b order) 0 0 t1 = Inr r"
    by (intro data_pass_ok pass_indices_ok assms(5))
  then obtain r1 where "data_pass (train_step env) ds tri (batch_sampler b order) 0 0 t1 = Inr r1"
    by blast
  then obtain trl tc t2 where
    p1: "data_pass (train_step env) ds tri (batch_sampler b order) 0 0 t1 = Inr (trl, tc, t2)"
    by (cases r1) auto
  obtain vorder t3 where vo: "sampler_order env (length vai) t2 = (vorder, t3)"
    by (cases "sampler_order env (length vai) t2")
  have "is_permutation (fst (sampler_order env (length vai) t2)) (length vai)"
    using assms(1) by (simp add: shuffles_def)
  then have "is_permutation vorder (length vai)" by (simp add: vo)
  then have "\<exists>r. data_pass (eval_step env) ds vai (batch_sampler b vorder) 0 0 t3 = Inr r"
    by (intro data_pass_ok pass_indices_ok assms(6))
  then obtain r2 where "data_pass (eval_step env) ds vai (batch_sampler b vorder) 0 0 t3 = Inr r2"
    by blast
  then obtain vll vc t4 where
    p2: "data_pass (eval_step env) ds vai (batch_sampler b vorder) 0 0 t3 = Inr (vll, vc, t4)"
    by (cases r2) auto
  have "0 < length tri" "0 < length vai" using assms(3,4) by simp_all
  with assms(2) have "0 < loader_len b (length tri)" "0 < loader_len b (length vai)"
    by (simp_all add: loader_len_pos)
  from finalize_ok [OF this(1) \<open>0 < length tri\<close> this(2) \<open>0 < length vai\<close>]
  obtain d' where "finalize d trl tc vll vc (loader_len b (length tri)) (length tri)
      (loader_len b (length vai)) (length vai) = Inr d'"
    by blast
  then show ?thesis by (simp add: run_epoch_def o p1 vo p2)
qed

lemma never_prunes_after_report:
  "never_prunes (Some tr) \<Longrightarrow> never_prunes (Some (after_report v e tr))"
  by (simp add: never_prunes_def after_report_def)

lemma epoch_loop_ok:
  assumes "shuffles env" and "0 < b" and "tri \<noteq> []" and "vai \<noteq> []"
    and "\<forall>j\<in>set tri. j < length ds" and "\<forall>j\<in>set vai. j < length ds"
  shows "never_prunes (trial_now s) \<Longrightarrow> \<exists>s'. epoch_loop env ds b tri vai n es s = (None, s')"
proof (induction es arbitrary: s)
  case Nil
  then show ?case by simp
next
  case (Cons e es)
  from run_epoch_ok [OF assms, of "history s" "runtime s"]
  obtain d t where r: "run_epoch env ds b tri vai (history s) (runtime s) = Inr (d, t)"
    by auto
  show ?case
  proof (cases "trial_now s")
    case None
    then have "never_prunes (trial_now (log_epoch e n d t s))" by (simp add: never_prunes_def)
    from Cons.IH [OF this] show ?thesis using r None by simp
  next
    case (Some tr)
    with Cons.prems have np: "never_prunes (Some tr)" by simp
    then have a: "\<not> should_prune tr (handle (after_report (last (val_accuracies d)) e tr))"
      by (simp add: never_prunes_def)
    have "never_prunes (trial_now (report_epoch e tr (log_epoch e n d t s)))"
      using never_prunes_after_report [OF np] by simp
    from Cons.IH [OF this] show ?thesis using r Some a by simp
  qed
qed

lemma start_loop_ok:
  assumes "shuffles env" and "0 < batch_size cfg" and "tri \<noteq> []"
    and "\<forall>j\<in>set tri. j < length ds" and "vai \<noteq> []"
  shows "\<exists>s0. start_loop env cfg ds tri vai t ev = Inr s0"
proof -
  obtain order t1 where o: "sampler_order env (length tri) t = (order, t1)"
    by (cases "sampler_order env (length tri) t")
  have "is_permutation (fst (sampler_order env (length tri) t)) (length tri)"
    using assms(1) by (simp add: shuffles_def)
  then have p: "is_permutation order (length tri)" by (simp add: o)
  from is_permutation_length [OF p] assms(3) have ne: "order \<noteq> []" by auto
  have b: "0 < nat (batch_size cfg)" using assms(2) by simp
  from batch_sampler_step [OF b ne] obtain batch batches where
    bs: "batch_sampler (nat (batch_size cfg)) order = batch # batches"
    by blast
  from pass_indices_ok [OF p assms(4), of "nat (batch_size cfg)"]
  have "\<forall>i\<in>set batch. i < length tri \<and> tri ! i < length ds" by (simp add: bs)
  from fetch_ok [OF this] obtain xs where "fetch ds tri batch = Inr xs" ..
  then show ?thesis using assms(2,3,5) by (simp add: start_loop_def o bs)
qed

lemma split_ok:
  assumes "shuffles env" and "2 \<le> length ds" and "length ds < 2 ^ 48"
  shows "\<exists>tri vai t. split_data env cfg ds = Inr ((tri, vai), t) \<and> tri \<noteq> [] \<and> vai \<noteq> []
    \<and> (\<forall>j\<in>set tri. j < length ds) \<and> (\<forall>j\<in>set vai. j < length ds)"
proof -
  define n where "n = length ds"
  define p where "p = fst (randperm env n (manual_seed env 0))"
  define k where "k = 17 * n div 20"
  have "is_permutation p n" using assms(1) by (simp add: shuffles_def p_def)
  then have s: "set p = {..<n}" and l: "length p = n"
    by (simp_all add: is_permutation_def is_permutation_length)
  have k: "0 < k" "k < n" using assms(2) by (simp_all add: k_def n_def)
  have e: "split_data env cfg ds = Inr ((take k p, drop k p), snd (randperm env n (manual_seed env 0)))"
    using split_data_eq [OF assms(3), of env cfg] l by (simp add: n_def p_def k_def)
  have a: "take k p \<noteq> []" "drop k p \<noteq> []" using k l by auto
  have "set (take k p) \<subseteq> set p" "set (drop k p) \<subseteq> set p"
    by (rule set_take_subset, rule set_drop_subset)
  then have b: "\<forall>j\<in>set (take k p). j < n" "\<forall>j\<in>set (drop k p). j < n"
    using s by auto
  from e a b show ?thesis unfolding n_def by blast
qed

lemma train_model_completes:
  fixes env :: "('t, 'img) torch"
  assumes "shuffles env" and "2 \<le> length ds" and "length ds < 2 ^ 48"
    and "0 < batch_size cfg" and "never_prunes (trial cfg)"
  shows "\<exists>d. fst (train_model env cfg ds) = Inr d"
proof -
  from split_ok [OF assms(1-3), of cfg] obtain tri vai t where
    sp: "split_data env cfg ds = Inr ((tri, vai), t)" and ne: "tri \<noteq> []" "vai \<noteq> []"
    and r: "\<forall>j\<in>set tri. j < length ds" "\<forall>j\<in>set vai. j < length ds"
    by blast
  define ev :: "'t event list"
    where "ev = azure_start cfg @ [PrintLengths (length tri) (length vai)]"
  from start_loop_ok [OF assms(1,4) ne(1) r(1) ne(2), of t ev] obtain s0 where
    st: "start_loop env cfg ds tri vai t ev = Inr s0" ..
  from start_loop_state(2) [OF st] assms(5) have "never_prunes (trial_now s0)" by simp
  moreover have "0 < nat (batch_size cfg)" using assms(4) by simp
  ultimately obtain s where
    "epoch_loop env ds (nat (batch_size cfg)) tri vai (epochs cfg) [0..<nat (epochs cfg)] s0
      = (None, s)"
    using epoch_loop_ok [OF assms(1) _ ne r] by blast
  then have "training_loop env cfg ds tri vai s0 = (None, s)" by (simp add: training_loop_def)
  then have "fst (train_model env cfg ds) = Inr (history s)"
    using sp st by (simp add: train_model_def train_from_split_def ev_def finish_def)
  then show ?thesis ..
qed


subsection \<open>The range of the metrics\<close>

lemma num_equal_bounds: "0 \<le> num_equal tc labels" "num_equal tc labels \<le> real (length labels)"
proof -
  show "0 \<le> num_equal tc labels" by (simp add: num_equal_def)
  have "length (filter (\<lambda>(c, l). c = l) (zip tc labels)) \<le> length (zip tc labels)"
    by (rule length_filter_le)
  also have "\<dots> \<le> length labels" by simp
  finally show "num_equal tc labels \<le> real (length labels)" by (simp add: num_equal_def)
qed

lemma data_pass_bounds:
  assumes "\<forall>imgs labels t. 0 \<le> fst (fst (step imgs labels t))"
  shows "data_pass step ds idx batches l c t = Inr (l', c', t') \<Longrightarrow> 0 \<le> l \<Longrightarrow> 0 \<le> c \<Longrightarrow>
    0 \<le> l' \<and> 0 \<le> c' \<and> c' \<le> c + real (sum_list (map length batches))"
proof (induction batches arbitrary: l c t)
  case Nil
  then show ?case by simp
next
  case (Cons batch batches)
  from Cons.prems(1) obtain xs where f: "fetch ds idx batch = Inr xs"
    by (auto split: sum.splits)
  obtain lo tc t1 where s: "step (map fst xs) (map snd xs) t = ((lo, tc), t1)"
    by (metis surj_pair)
  have lo: "0 \<le> lo" using assms [rule_format, of "map fst xs" "map snd xs" t] by (simp add: s)
  have ne: "0 \<le> num_equal tc (map snd xs)" "num_equal tc (map snd xs) \<le> real (length batch)"
    using num_equal_bounds [of tc "map snd xs"] fetch_length [OF f] by simp_all
  from Cons.prems(1) f s
  have "data_pass step ds idx batches (l + lo) (c + num_equal tc (map snd xs)) t1 = Inr (l', c', t')"
    by simp
  from Cons.IH [OF this] Cons.prems(2,3) lo ne
  have "0 \<le> l' \<and> 0 \<le> c' \<and> c' \<le> c + num_equal tc (map snd xs) + real (sum_list (map length batches))"
    by simp
  with ne show ?case by simp
qed

lemma sum_length_batch_sampler: "sum_list (map length (batch_sampler b xs)) \<le> length xs"
proof (cases "0 < b")
  case True
  have "sum_list (map length (batch_sampler b xs)) = length (concat (batch_sampler b xs))"
    by (simp add: length_concat)
  then show ?thesis by (simp add: concat_batch_sampler [OF True])
next
  case False
  then show ?thesis by (simp add: batch_sampler.simps)
qed

lemma pass_bounds:
  assumes "\<forall>imgs labels t. 0 \<le> fst (fst (step imgs labels t))"
    and "length order = n"
    and "data_pass step ds idx (batch_sampler b order) 0 0 t = Inr (l', c', t')"
  shows "0 \<le> l'" and "0 \<le> c'" and "c' \<le> real n"
proof -
  from data_pass_bounds [OF assms(1) assms(3)]
  have b: "0 \<le> l' \<and> 0 \<le> c' \<and> c' \<le> 0 + real (sum_list (map length (batch_sampler b order)))"
    by simp
  then show "0 \<le> l'" "0 \<le> c'" by simp_all
  have "real (sum_list (map length (batch_sampler b order))) \<le> real n"
    using sum_length_batch_sampler [of b order] assms(2) by simp
  with b show "c' \<le> real n" by simp
qed

lemma finalize_in_range:
  assumes "in_range d"
    and "0 \<le> trl" "0 \<le> tc" "tc \<le> real n" "0 \<le> vll" "0 \<le> vc" "vc \<le> real j"
  shows "finalize d trl tc vll vc k n m j = Inr d' \<Longrightarrow> in_range d'"
    and "finalize d trl tc vll vc k n m j = Inl (e, d') \<Longrightarrow> in_range d'"
proof -
  have q: "0 \<le> trl / real k" "0 \<le> vll / real m" "0 \<le> tc / real n" "0 \<le> vc / real j"
    using assms(2,3,5,6) by simp_all
  have u: "0 < n \<Longrightarrow> tc / real n \<le> 1" "0 < j \<Longrightarrow> vc / real j \<le> 1"
    using assms(4,7) by simp_all
  show "finalize d trl tc vll vc k n m j = Inr d' \<Longrightarrow> in_range d'"
    using assms(1) q u
    by (auto simp: finalize_def py_truediv_def in_range_def split: if_splits)
  show "finalize d trl tc vll vc k n m j = Inl (e, d') \<Longrightarrow> in_range d'"
    using assms(1) q u
    by (auto simp: finalize_def py_truediv_def in_range_def split: if_splits)
qed

lemma run_epoch_in_range:
  assumes "shuffles env" and "nonneg_losses env" and "in_range d"
  shows "run_epoch env ds b tri vai d t = Inr (d', t') \<Longrightarrow> in_range d'"
    and "run_epoch env ds b tri vai d t = Inl (e, d', t') \<Longrightarrow> in_range d'"
proof -
  obtain order t1 where o: "sampler_order env (length tri) t = (order, t1)"
    by (cases "sampler_order env (length tri) t")
  have "is_permutation (fst (sampler_order env (length tri) t)) (length tri)"
    using assms(1) by (simp add: shuffles_def)
  then have lo: "length order = length tri" by (simp add: o is_permutation_length)
  have st: "\<forall>imgs labels t. 0 \<le> fst (fst (train_step env imgs labels t))"
    and se: "\<forall>imgs labels t. 0 \<le> fst (fst (eval_step env imgs labels t))"
    using assms(2) by (simp_all add: nonneg_losses_def)
  have main: "in_range d'"
    if r: "run_epoch env ds b tri vai d t = Inr (d', t') \<or>
           run_epoch env ds b tri vai d t = Inl (e, d', t')"
  proof (cases "data_pass (train_step env) ds tri (batch_sampler b order) 0 0 t1")
    case (Inl x)
    with r o have "d' = d" by (auto simp: run_epoch_def split: prod.splits)
    with assms(3) show ?thesis by simp
  next
    case (Inr y)
    obtain trl tc t2 where y: "y = (trl, tc, t2)" by (cases y)
    note p1 = Inr [unfolded y]
    obtain vorder t3 where vo: "sampler_order env (length vai) t2 = (vorder, t3)"
      by (cases "sampler_order env (length vai) t2")
    have "is_permutation (fst (sampler_order env (length vai) t2)) (length vai)"
      using assms(1) by (simp add: shuffles_def)
    then have lv: "length vorder = length vai" by (simp add: vo is_permutation_length)
    show ?thesis
    proof (cases "data_pass (eval_step env) ds vai (batch_sampler b vorder) 0 0 t3")
      case (Inl x)
      with r o p1 vo have "d' = d" by (auto simp: run_epoch_def split: prod.splits)
      with assms(3) show ?thesis by simp
    next
      case (Inr z)
      obtain vll vc t4 where z: "z = (vll, vc, t4)" by (cases z)
      note p2 = Inr [unfolded z]
      from r o p1 vo p2
      have f: "finalize d trl tc vll vc (loader_len b (length tri)) (length tri)
          (loader_len b (length vai)) (length vai) = Inr d'
        \<or> finalize d trl tc vll vc (loader_len b (length tri)) (length tri)
          (loader_len b (length vai)) (length vai) = Inl (e, d')"
        by (auto simp: run_epoch_def split: sum.splits prod.splits)
      note fr = finalize_in_range [OF assms(3) pass_bounds [OF st lo p1] pass_bounds [OF se lv p2]]
      from f fr show ?thesis by blast
    qed
  qed
  from main show "run_epoch env ds b tri vai d t = Inr (d', t') \<Longrightarrow> in_range d'"
    and "run_epoch env ds b tri vai d t = Inl (e, d', t') \<Longrightarrow> in_range d'"
    by blast+
qed

lemma epoch_loop_in_range:
  assumes "shuffles env" and "nonneg_losses env"
  shows "epoch_loop env ds b tri vai n es s = (r, s') \<Longrightarrow> in_range (history s) \<Longrightarrow>
    in_range (history s')"
proof (induction es arbitrary: s)
  case Nil
  then show ?case by simp
next
  case (Cons e es)
  show ?case
  proof (cases "run_epoch env ds b tri vai (history s) (runtime s)")
    case (Inl x)
    obtain err d t where x: "x = (err, d, t)" by (cases x)
    from Inl x have re: "run_epoch env ds b tri vai (history s) (runtime s) = Inl (err, d, t)"
      by simp
    from run_epoch_in_range(2) [OF assms Cons.prems(2) re] have "in_range d" .
    with Cons.prems(1) re show ?thesis by auto
  next
    case (Inr p)
    obtain d t where p: "p = (d, t)" by (cases p)
    from Inr p have re: "run_epoch env ds b tri vai (history s) (runtime s) = Inr (d, t)" by simp
    from run_epoch_in_range(1) [OF assms Cons.prems(2) re] have d: "in_range d" .
    show ?thesis
    proof (cases "trial_now s")
      case None
      with Cons.prems re
      have "epoch_loop env ds b tri vai n es (log_epoch e n d t s) = (r, s')" by simp
      from Cons.IH [OF this] d show ?thesis by simp
    next
      case (Some tr)
      show ?thesis
      proof (cases "should_prune tr (handle (after_report (last (val_accuracies d)) e tr))")
        case True
        with Cons.prems re Some d show ?thesis by auto
      next
        case False
        with Cons.prems re Some
        have "epoch_loop env ds b tri vai n es (report_epoch e tr (log_epoch e n d t s)) = (r, s')"
          by simp
        from Cons.IH [OF this] d show ?thesis by simp
      qed
    qed
  qed
qed

lemma loop_outcome_in_range:
  assumes "shuffles env" and "nonneg_losses env" and "loop_outcome env cfg ds = Some (r, s)"
  shows "in_range (history s)"
proof -
  from loop_outcome_run [OF assms(3)] obtain tri vai s0 where
    h: "history s0 = empty_dict"
    and lp: "training_loop env cfg ds tri vai s0 = (r, s)"
    by auto
  have "in_range (history s0)" by (simp add: h in_range_def empty_dict_def)
  from epoch_loop_in_range [OF assms(1,2) lp [unfolded training_loop_def] this]
  show ?thesis .
qed


subsection \<open>The small instance, run\<close>

lemma toy_torch_simps:
  "manual_seed toy_torch s = nat s"
  "randperm toy_torch n t = (rev [0..<n], Suc t)"
  "sampler_order toy_torch n t = ([0..<n], Suc t)"
  "new_classifier toy_torch p lr t = Suc t"
  "train_step toy_torch imgs labels t = ((1 / 2, map (\<lambda>x. 0) imgs), Suc t)"
  "eval_step toy_torch imgs labels t = ((1 / 4, map (\<lambda>x. 0) imgs), t)"
  by (simp_all add: toy_torch_def)

lemma upt_3: "[0..<3] = [0, Suc 0, 2]" "[0..<Suc 0] = [0]"
  by (simp_all add: upt_conv_Cons)

lemma toy_split:
  "split_data toy_torch cfg toy_set = Inr (([3, 2, Suc 0], [0]), Suc 0)"
proof -
  have "length toy_set < 2 ^ 48" by (simp add: toy_set_def)
  from split_data_eq [OF this, of toy_torch cfg] show ?thesis
    by (simp add: toy_torch_simps toy_set_def upt_conv_Cons)
qed

lemma toy_epoch:
  "run_epoch toy_torch toy_set 250 [3, 2, Suc 0] [0] d t =
   Inr (d\<lparr>train_losses := train_losses d @ [1 / 2],
          train_accuracies := train_accuracies d @ [2 / 3],
          val_losses := val_losses d @ [1 / 4],
          val_accuracies := val_accuracies d @ [1]\<rparr>, Suc (Suc (Suc t)))"
  by (simp add: run_epoch_def toy_torch_simps toy_set_def upt_conv_Cons batch_sampler_step
      subset_getitem_def num_equal_def finalize_def py_truediv_def loader_len_def)

lemma toy_start:
  "batch_size cfg = 250 \<Longrightarrow> start_loop toy_torch cfg toy_set [3, 2, Suc 0] [0] t ev =
   Inr \<lparr>runtime = Suc (Suc t), history = empty_dict, trial_now = trial cfg,
        events = ev @ [PrintShapes 3 3]\<rparr>"
  by (simp add: start_loop_def toy_torch_simps toy_set_def upt_conv_Cons batch_sampler_step
      subset_getitem_def)

lemma toy_pruned:
  "loop_outcome toy_torch pruned_config toy_set = Some (Some TrialPruned, pruned_final)"
  unfolding loop_outcome_def toy_split
  by (simp add: toy_start training_loop_def toy_epoch log_epoch_def report_epoch_def
      after_report_def azure_start_def empty_dict_def upt_3 default_config_def toy_trial_def
      pruned_config_def pruned_final_def)

lemma toy_default:
  "train_model toy_torch default_config toy_set =
   (Inr one_epoch_dict,
    [PrintLengths 3 1, PrintShapes 3 3,
     EpochInfo 1 1 (1 / 2) (2 / 3) (1 / 4) 1,
     TorchSave 6 (InProject [''models/trained_model.pth'']),
     PickleDump one_epoch_dict (InProject [''reports/'', ''train_val_dict.pickle'']),
     SaveFig (InProject [''reports/figures/'', ''Training_Loss.pdf'']),
     SaveFig (InProject [''reports/figures/'', ''Training_Accuracy.pdf''])])"
  unfolding train_model_def toy_split
  by (simp add: train_from_split_def toy_start training_loop_def toy_epoch log_epoch_def
      azure_start_def empty_dict_def finish_def save_results_def upt_3 default_config_def
      one_epoch_dict_def)

lemma toy_no_epochs:
  "train_model toy_torch (default_config\<lparr>epochs := 0\<rparr>) toy_set =
   (Inr empty_dict,
    [PrintLengths 3 1, PrintShapes 3 3,
     TorchSave 3 (InProject [''models/trained_model.pth'']),
     PickleDump empty_dict (InProject [''reports/'', ''train_val_dict.pickle'']),
     SaveFig (InProject [''reports/figures/'', ''Training_Loss.pdf'']),
     SaveFig (InProject [''reports/figures/'', ''Training_Accuracy.pdf''])])"
  unfolding train_model_def toy_split
  by (simp add: train_from_split_def toy_start training_loop_def
      azure_start_def finish_def save_results_def default_config_def)

lemma toy_contracts: "shuffles toy_torch" "nonneg_losses toy_torch"
  by (auto simp: shuffles_def nonneg_losses_def toy_torch_simps is_permutation_def)

lemma toy_sizes: "2 \<le> length toy_set" "length toy_set < 2 ^ 48"
  by (simp_all add: toy_set_def)


subsection \<open>The exceptions of a run\<close>

lemma epoch_loop_errors:
  assumes "0 < b" and "tri \<noteq> []" and "vai \<noteq> []"
  shows "epoch_loop env ds b tri vai n es s = (Some e, s') \<Longrightarrow> e = IndexError \<or> e = TrialPruned"
proof (induction es arbitrary: s)
  case Nil
  then show ?case by simp
next
  case (Cons k es)
  show ?case
  proof (cases "run_epoch env ds b tri vai (history s) (runtime s)")
    case (Inl x)
    obtain err d t where x: "x = (err, d, t)" by (cases x)
    from run_epoch_no_division_by_zero [OF Inl [unfolded x] assms] have "err = IndexError" .
    with Cons.prems Inl x show ?thesis by auto
  next
    case (Inr p)
    obtain d t where p: "p = (d, t)" by (cases p)
    show ?thesis
    proof (cases "trial_now s")
      case None
      with Cons.prems Inr p
      have "epoch_loop env ds b tri vai n es (log_epoch k n d t s) = (Some e, s')" by simp
      from Cons.IH [OF this] show ?thesis .
    next
      case (Some tr)
      show ?thesis
      proof (cases "should_prune tr (handle (after_report (last (val_accuracies d)) k tr))")
        case True
        with Cons.prems Inr p Some show ?thesis by auto
      next
        case False
        with Cons.prems Inr p Some
        have "epoch_loop env ds b tri vai n es (report_epoch k tr (log_epoch k n d t s))
          = (Some e, s')"
          by simp
        from Cons.IH [OF this] show ?thesis .
      qed
    qed
  qed
qed

lemma start_loop_errors:
  "start_loop env cfg ds tri vai t ev = Inl e \<Longrightarrow>
   e = IndexError \<or> e = StopIteration \<or> (\<exists>c. e = ValueError c)"
  by (auto simp: start_loop_def split: if_splits prod.splits list.splits sum.splits
      dest: fetch_error)

lemma loop_outcome_errors:
  assumes "loop_outcome env cfg ds = Some (Some e, s)"
  shows "e = IndexError \<or> e = TrialPruned"
proof -
  from loop_outcome_run [OF assms] obtain tri vai t s0 where
    st: "start_loop env cfg ds tri vai t
           (azure_start cfg @ [PrintLengths (length tri) (length vai)]) = Inr s0"
    and lp: "training_loop env cfg ds tri vai s0 = (Some e, s)"
    by auto
  note q = start_loop_state(4-6) [OF st]
  from q(1) have "0 < nat (batch_size cfg)" by simp
  from epoch_loop_errors [OF this q(2) q(3) lp [unfolded training_loop_def]]
  show ?thesis .
qed

lemma train_model_errors:
  fixes env :: "('t, 'img) torch"
  assumes "fst (train_model env cfg ds) = Inl e"
  shows "e = TrialPruned \<or> e = IndexError \<or> e = StopIteration \<or> (\<exists>c. e = ValueError c)"
proof -
  from split_data_total [of env cfg ds] obtain r where "split_data env cfg ds = Inr r" ..
  then obtain tri vai t where sp: "split_data env cfg ds = Inr ((tri, vai), t)"
    by (cases r) auto
  define ev :: "'t event list"
    where "ev = azure_start cfg @ [PrintLengths (length tri) (length vai)]"
  show ?thesis
  proof (cases "start_loop env cfg ds tri vai t ev")
    case (Inl x)
    with assms sp have "x = e" by (simp add: train_model_def train_from_split_def ev_def)
    with start_loop_errors [of env cfg ds tri vai t ev e] Inl show ?thesis by blast
  next
    case (Inr s0)
    obtain r s where lp: "training_loop env cfg ds tri vai s0 = (r, s)"
      by (cases "training_loop env cfg ds tri vai s0")
    have lo: "loop_outcome env cfg ds = Some (r, s)"
      using sp Inr lp by (simp add: loop_outcome_def ev_def)
    from assms sp Inr lp have "r = Some e"
      by (auto simp: train_model_def train_from_split_def ev_def finish_def
          split: option.splits)
    with lo loop_outcome_errors [of env cfg ds e s] show ?thesis by blast
  qed
qed



lemma toy_one_sample:
  "split_data toy_torch cfg [(10, 0)] = Inr (([], [0]), Suc 0)"
proof -
  have "length [(10::nat, 0::int)] < 2 ^ 48" by simp
  from split_data_eq [OF this, of toy_torch cfg] show ?thesis
    by (simp add: toy_torch_simps)
qed



subsection \<open>Datasets that are too small\<close>

text \<open>
  A dataset of one sample: the splitter returns an empty training partition and a
  validation partition of one index, and raises nothing; the run ends on line 89 with
  the \<open>ValueError\<close> of the sampler of the training loader.
\<close>

theorem splitter_accepts_one_sample:
  "dataset_splitter toy_torch 1 0 = Inr (([], [0]), 1)
   \<and> fst (train_model toy_torch default_config [(10, 0)]) = Inl (ValueError NumSamples)"
proof -
  have "(1::nat) < 2 ^ 48" by simp
  from dataset_splitter_eq [OF this, of toy_torch 0]
  have a: "dataset_splitter toy_torch 1 0 = Inr (([], [0]), 1)"
    by (simp add: toy_torch_simps)
  have b: "fst (train_model toy_torch default_config [(10, 0)]) = Inl (ValueError NumSamples)"
    unfolding train_model_def toy_one_sample
    by (simp add: train_from_split_def start_loop_def)
  from a b show ?thesis by blast
qed

text \<open>
  Claim C3, as the code has it. The source fixes the fraction at 0.85 and checks neither
  it nor the length: the split of lines 77 to 79 succeeds for every length, also below
  2, and no run ends with an \<open>InvalidSplitError\<close>, which the source does not have. A
  dataset of fewer than 2 samples leaves the training partition empty, and
  \<^verbatim>\<open>train_model\<close> then fails on line 89, before the loop is reached and before any
  training step, with the \<open>ValueError\<close> by which the sampler of the training loader
  refuses a subset without samples, whatever the batch size; all it has done by then is
  the start-up for Azure and the line that prints the two lengths.
\<close>

theorem small_dataset_stops_before_training:
  "(\<exists>r. dataset_splitter env n t = Inr r)
   \<and> (\<exists>r. split_data env cfg ds = Inr r)
   \<and> fst (train_model env cfg ds) \<noteq> Inl InvalidSplitError
   \<and> (length ds < 2 \<longrightarrow>
        fst (train_model env cfg ds) = Inl (ValueError NumSamples)
        \<and> (\<exists>k. snd (train_model env cfg ds) = azure_start cfg @ [PrintLengths 0 k])
        \<and> loop_outcome env cfg ds = None)"
proof (intro conjI impI)
  show "\<exists>r. dataset_splitter env n t = Inr r" by (rule dataset_splitter_total)
  show "\<exists>r. split_data env cfg ds = Inr r" by (rule split_data_total)
  show "fst (train_model env cfg ds) \<noteq> Inl InvalidSplitError"
    using train_model_errors [of env cfg ds InvalidSplitError] by auto
next
  assume less: "length ds < 2"
  then have "length ds < 2 ^ 48" by (rule less_trans) simp
  note e = split_data_eq [OF this, of env cfg]
  have z: "17 * length ds div 20 = 0" using less by simp
  show "fst (train_model env cfg ds) = Inl (ValueError NumSamples)"
    unfolding train_model_def e z by (simp add: train_from_split_def start_loop_def)
  show "\<exists>k. snd (train_model env cfg ds) = azure_start cfg @ [PrintLengths 0 k]"
    unfolding train_model_def e z by (simp add: train_from_split_def start_loop_def)
  show "loop_outcome env cfg ds = None"
    unfolding loop_outcome_def e z by (simp add: start_loop_def)
qed

text \<open>The dataset of one sample, with the default parameters.\<close>

theorem small_dataset_stops_before_training_witness:
  "length [(10::nat, 0::int)] < 2
   \<and> split_data toy_torch default_config [(10, 0)] = Inr (([], [0]), 1)
   \<and> fst (train_model toy_torch default_config [(10, 0)]) = Inl (ValueError NumSamples)
   \<and> loop_outcome toy_torch default_config [(10, 0)] = None"
proof -
  have l: "length [(10::nat, 0::int)] < 2" by simp
  from small_dataset_stops_before_training
    [where env = toy_torch and cfg = default_config and ds = "[(10, 0)]"] l
  have "fst (train_model toy_torch default_config [(10, 0)]) = Inl (ValueError NumSamples)"
    and "loop_outcome toy_torch default_config [(10, 0)] = None"
    by blast+
  with l toy_one_sample [of default_config] show ?thesis by simp
qed


subsection \<open>Phases without batches\<close>





subsection \<open>Pruning\<close>

text \<open>
  The loop over a list of epochs is the loop over its first part, followed, when that
  has passed, by the loop over the rest.
\<close>

lemma epoch_loop_append:
  "epoch_loop env ds b tri vai n (es @ fs) s =
     (case epoch_loop env ds b tri vai n es s of
        (None, s') \<Rightarrow> epoch_loop env ds b tri vai n fs s'
      | (Some e, s') \<Rightarrow> (Some e, s'))"
  by (induction es arbitrary: s) (auto split: sum.splits prod.splits option.splits)

lemma upt_at: "k < m \<Longrightarrow> [0..<m] = [0..<k] @ k # [Suc k..<m]"
  by (metis upt_add_eq_append upt_conv_Cons le_add_diff_inverse less_imp_le_nat zero_le)

text \<open>
  When \<^verbatim>\<open>should_prune()\<close> answers true after the report of epoch \<open>k\<close>, the loop is left
  there, whatever epochs were still to come.
\<close>

lemma prune_at_epoch:
  assumes "epoch_end env cfg ds k = Some s2"
    and "trial_now s2 = Some tr"
    and "should_prune tr (handle (after_report (last (val_accuracies (history s2))) k tr))"
  shows "loop_outcome env cfg ds = Some (Some TrialPruned, report_epoch k tr s2)"
proof -
  from assms(1) have k: "int k < epochs cfg"
    by (simp add: epoch_end_def split: if_splits)
  from assms(1) k obtain tri vai t0 where
    sp: "split_data env cfg ds = Inr ((tri, vai), t0)"
    by (auto simp: epoch_end_def split: sum.splits)
  from assms(1) k sp obtain s where
    fe: "first_epochs env cfg ds k = Some (None, s)"
    by (auto simp: epoch_end_def split: option.splits prod.splits)
  from assms(1) k sp fe obtain d t where
    re: "run_epoch env ds (nat (batch_size cfg)) tri vai (history s) (runtime s) = Inr (d, t)"
    and s2: "s2 = log_epoch k (epochs cfg) d t s"
    by (auto simp: epoch_end_def split: sum.splits)
  from fe sp obtain s0 where
    st: "start_loop env cfg ds tri vai t0
           (azure_start cfg @ [PrintLengths (length tri) (length vai)]) = Inr s0"
    and lk: "epoch_loop env ds (nat (batch_size cfg)) tri vai (epochs cfg) [0..<k] s0 = (None, s)"
    by (auto simp: first_epochs_def split: sum.splits)
  from k have "k < nat (epochs cfg)" by simp
  note u = upt_at [OF this]
  from assms(2,3) s2 have tn: "trial_now s = Some tr"
    and pr: "should_prune tr (handle (after_report (last (val_accuracies d)) k tr))"
    by simp_all
  have "epoch_loop env ds (nat (batch_size cfg)) tri vai (epochs cfg)
          (k # [Suc k..<nat (epochs cfg)]) s
        = (Some TrialPruned, report_epoch k tr s2)"
    using re tn pr s2 by simp
  then have "training_loop env cfg ds tri vai s0 = (Some TrialPruned, report_epoch k tr s2)"
    unfolding training_loop_def by (subst u) (simp add: epoch_loop_append lk)
  then show ?thesis using sp st by (simp add: loop_outcome_def)
qed

lemma toy_end_of_epoch_2:
  "epoch_end toy_torch early_pruned_config toy_set 2 = Some end_of_epoch_2"
proof -
  have u: "[0..<2] = [0, Suc 0]" by (simp add: upt_conv_Cons)
  have "first_epochs toy_torch early_pruned_config toy_set 2 =
    Some (None,
      \<lparr>runtime = 9,
       history = \<lparr>train_losses = [1 / 2, 1 / 2], train_accuracies = [2 / 3, 2 / 3],
                  val_losses = [1 / 4, 1 / 4], val_accuracies = [1, 1]\<rparr>,
       trial_now = Some (toy_trial\<lparr>handle := 2\<rparr>),
       events = [PrintLengths 3 1, PrintShapes 3 3,
                 EpochInfo 1 5 (1 / 2) (2 / 3) (1 / 4) 1, TrialReport 1 0,
                 EpochInfo 2 5 (1 / 2) (2 / 3) (1 / 4) 1, TrialReport 1 1]\<rparr>)"
    unfolding first_epochs_def toy_split
    by (simp add: u toy_start toy_epoch log_epoch_def report_epoch_def
        after_report_def azure_start_def empty_dict_def default_config_def toy_trial_def
        early_pruned_config_def)
  then show ?thesis
    unfolding epoch_end_def toy_split
    by (simp add: toy_epoch log_epoch_def end_of_epoch_2_def default_config_def
        toy_trial_def early_pruned_config_def)
qed

text \<open>
  Five epochs, pruned after the report of epoch 2: the caller gets the exception and no
  dictionary.
\<close>

theorem pruned_caller_gets_nothing:
  "epoch_end toy_torch early_pruned_config toy_set 2 = Some end_of_epoch_2
   \<and> should_prune toy_trial
       (handle (after_report (last (val_accuracies (history end_of_epoch_2))) 2
          (toy_trial\<lparr>handle := 2\<rparr>)))
   \<and> entries (history end_of_epoch_2) 3
   \<and> fst (train_model toy_torch early_pruned_config toy_set) = Inl TrialPruned
   \<and> returned_history (train_model toy_torch early_pruned_config toy_set) = None"
proof -
  have tn: "trial_now end_of_epoch_2 = Some (toy_trial\<lparr>handle := 2\<rparr>)"
    by (simp add: end_of_epoch_2_def)
  have pr: "should_prune (toy_trial\<lparr>handle := 2\<rparr>)
       (handle (after_report (last (val_accuracies (history end_of_epoch_2))) 2
          (toy_trial\<lparr>handle := 2\<rparr>)))"
    by (simp add: after_report_def toy_trial_def)
  from loop_outcome_run [OF prune_at_epoch [OF toy_end_of_epoch_2 tn pr]]
  have "fst (train_model toy_torch early_pruned_config toy_set) = Inl TrialPruned"
    by auto
  moreover have "entries (history end_of_epoch_2) 3"
    by (simp add: end_of_epoch_2_def entries_def)
  ultimately show ?thesis
    using toy_end_of_epoch_2 pr by (simp add: returned_history_def toy_trial_def)
qed

text \<open>
  Claim C1, as the code has it. Take a run that gets to the end of epoch \<open>k\<close>, one of the
  values of \<^verbatim>\<open>range(epochs)\<close>, with a trial object whose \<^verbatim>\<open>should_prune()\<close> answers true
  after the report of that epoch on line 199. Then \<^verbatim>\<open>train_model\<close> raises \<open>TrialPruned\<close>
  at once: the effects of the run are those up to the end of epoch \<open>k\<close> followed by that
  report and nothing else, so no further epoch runs, and no artifact is persisted. The
  lists hold the \<open>k + 1\<close> records up to and including epoch \<open>k\<close> at that moment, but they
  are not handed on: the exception carries nothing and the caller receives no Metric
  History.
\<close>

theorem pruned_run:
  assumes "epoch_end env cfg ds k = Some s2"
    and "trial_now s2 = Some tr"
    and "should_prune tr (handle (after_report (last (val_accuracies (history s2))) k tr))"
  shows "train_model env cfg ds =
      (Inl TrialPruned, events s2 @ [TrialReport (last (val_accuracies (history s2))) k])
    \<and> returned_history (train_model env cfg ds) = None
    \<and> filter persists (snd (train_model env cfg ds)) = []
    \<and> loop_outcome env cfg ds = Some (Some TrialPruned, report_epoch k tr s2)
    \<and> entries (history s2) (Suc k)
    \<and> int k < epochs cfg"
proof -
  note lo = prune_at_epoch [OF assms]
  note p = state_when_pruned [OF lo]
  from p(1) have tm: "train_model env cfg ds =
      (Inl TrialPruned, events s2 @ [TrialReport (last (val_accuracies (history s2))) k])"
    by simp
  have rh: "returned_history (train_model env cfg ds) = None"
    by (simp add: p(1) returned_history_def)
  from p(2) have np: "filter persists (snd (train_model env cfg ds)) = []"
    by (simp add: p(1))
  from p(3) have en: "entries (history s2) (Suc k)" and k: "int k < epochs cfg" by auto
  from tm rh np lo en k show ?thesis by simp
qed

text \<open>
  The run of five epochs that is pruned after the report of epoch 2: epochs 3 and 4 do
  not run.
\<close>

theorem pruned_run_witness:
  "epoch_end toy_torch early_pruned_config toy_set 2 = Some end_of_epoch_2
   \<and> trial_now end_of_epoch_2 = Some (toy_trial\<lparr>handle := 2\<rparr>)
   \<and> should_prune (toy_trial\<lparr>handle := 2\<rparr>)
       (handle (after_report (last (val_accuracies (history end_of_epoch_2))) 2
          (toy_trial\<lparr>handle := 2\<rparr>)))
   \<and> train_model toy_torch early_pruned_config toy_set =
       (Inl TrialPruned,
        [PrintLengths 3 1, PrintShapes 3 3,
         EpochInfo 1 5 (1 / 2) (2 / 3) (1 / 4) 1, TrialReport 1 0,
         EpochInfo 2 5 (1 / 2) (2 / 3) (1 / 4) 1, TrialReport 1 1,
         EpochInfo 3 5 (1 / 2) (2 / 3) (1 / 4) 1, TrialReport 1 2])
   \<and> filter persists (snd (train_model toy_torch early_pruned_config toy_set)) = []
   \<and> entries (history end_of_epoch_2) 3"
proof -
  have tn: "trial_now end_of_epoch_2 = Some (toy_trial\<lparr>handle := 2\<rparr>)"
    by (simp add: end_of_epoch_2_def)
  have pr: "should_prune (toy_trial\<lparr>handle := 2\<rparr>)
       (handle (after_report (last (val_accuracies (history end_of_epoch_2))) 2
          (toy_trial\<lparr>handle := 2\<rparr>)))"
    by (simp add: after_report_def toy_trial_def)
  note r = pruned_run [OF toy_end_of_epoch_2 tn pr]
  from r have a: "train_model toy_torch early_pruned_config toy_set =
      (Inl TrialPruned,
       events end_of_epoch_2 @ [TrialReport (last (val_accuracies (history end_of_epoch_2))) 2])"
    by blast
  from r have b: "filter persists (snd (train_model toy_torch early_pruned_config toy_set)) = []"
    by blast
  from r have c: "entries (history end_of_epoch_2) (Suc 2)" by blast
  have d: "events end_of_epoch_2 @ [TrialReport (last (val_accuracies (history end_of_epoch_2))) 2]
      = [PrintLengths 3 1, PrintShapes 3 3,
         EpochInfo 1 5 (1 / 2) (2 / 3) (1 / 4) 1, TrialReport 1 0,
         EpochInfo 2 5 (1 / 2) (2 / 3) (1 / 4) 1, TrialReport 1 1,
         EpochInfo 3 5 (1 / 2) (2 / 3) (1 / 4) 1, TrialReport 1 2]"
    by (simp add: end_of_epoch_2_def)
  from c have c': "entries (history end_of_epoch_2) 3" by (simp add: numeral_3_eq_3)
  from toy_end_of_epoch_2 tn pr a [unfolded d] b c' show ?thesis by blast
qed

subsection \<open>The number of epochs on record\<close>

text \<open>
  Pruning at epoch 2, counted from 0 as the step that \<^verbatim>\<open>trial.report\<close> receives: three
  records, not two.
\<close>

theorem pruned_at_epoch_2_has_3_entries:
  "loop_outcome toy_torch pruned_config toy_set = Some (Some TrialPruned, pruned_final)
   \<and> last (events pruned_final) = TrialReport 1 2
   \<and> length (val_accuracies (history pruned_final)) = 3
   \<and> \<not> entries (history pruned_final) 2"
  using toy_pruned by (simp add: pruned_final_def entries_def)

text \<open>
  Claim C8, as the code has it. A run over a dataset of at least 2 samples with a
  positive batch size and without pruning returns, given collaborators that shuffle;
  every run that returns a Metric History returns one of exactly \<open>E\<close> records for
  \<^verbatim>\<open>epochs\<close> \<open>= E \<ge> 0\<close> (none for a negative \<open>E\<close>); and when pruning is triggered at
  epoch \<open>k\<close>, counted from 0 as in the report, the local Metric History holds exactly
  \<open>k + 1\<close> records when \<open>TrialPruned\<close> is raised.
\<close>

theorem history_length:
  "(shuffles env \<and> 2 \<le> length ds \<and> length ds < 2 ^ 48 \<and> 0 < batch_size cfg
      \<and> never_prunes (trial cfg) \<longrightarrow> (\<exists>d'. fst (train_model env cfg ds) = Inr d'))
   \<and> (fst (train_model env cfg ds) = Inr d \<longrightarrow> entries d (nat (epochs cfg)))
   \<and> (loop_outcome env cfg ds = Some (Some TrialPruned, s) \<longrightarrow>
        (\<exists>k. int k < epochs cfg
           \<and> last (events s) = TrialReport (last (val_accuracies (history s))) k
           \<and> entries (history s) (k + 1)))"
proof (intro conjI impI)
  assume "shuffles env \<and> 2 \<le> length ds \<and> length ds < 2 ^ 48 \<and> 0 < batch_size cfg
      \<and> never_prunes (trial cfg)"
  then show "\<exists>d'. fst (train_model env cfg ds) = Inr d'"
    by (intro train_model_completes) simp_all
next
  assume "fst (train_model env cfg ds) = Inr d"
  then show "entries d (nat (epochs cfg))" by (rule returned_entries)
next
  assume "loop_outcome env cfg ds = Some (Some TrialPruned, s)"
  from state_when_pruned(3) [OF this]
  show "\<exists>k. int k < epochs cfg
           \<and> last (events s) = TrialReport (last (val_accuracies (history s))) k
           \<and> entries (history s) (k + 1)"
    by simp
qed

text \<open>One epoch without a trial, and three epochs pruned after the third.\<close>

theorem history_length_witness:
  "(shuffles toy_torch \<and> 2 \<le> length toy_set \<and> length toy_set < 2 ^ 48
      \<and> 0 < batch_size default_config \<and> never_prunes (trial default_config))
   \<and> fst (train_model toy_torch default_config toy_set) = Inr one_epoch_dict
   \<and> entries one_epoch_dict (nat (epochs default_config))
   \<and> loop_outcome toy_torch pruned_config toy_set = Some (Some TrialPruned, pruned_final)
   \<and> (\<exists>k. int k < epochs pruned_config
         \<and> last (events pruned_final) = TrialReport (last (val_accuracies (history pruned_final))) k
         \<and> entries (history pruned_final) (k + 1))"
proof -
  have a: "shuffles toy_torch \<and> 2 \<le> length toy_set \<and> length toy_set < 2 ^ 48
      \<and> 0 < batch_size default_config \<and> never_prunes (trial default_config)"
    using toy_contracts(1) toy_sizes by (simp add: default_config_def never_prunes_def)
  have b: "fst (train_model toy_torch default_config toy_set) = Inr one_epoch_dict"
    by (simp add: toy_default)
  from history_length [of toy_torch toy_set default_config one_epoch_dict pruned_final] b
  have c: "entries one_epoch_dict (nat (epochs default_config))" by blast
  from history_length [of toy_torch toy_set pruned_config one_epoch_dict pruned_final]
    toy_pruned
  have d: "\<exists>k. int k < epochs pruned_config
         \<and> last (events pruned_final) = TrialReport (last (val_accuracies (history pruned_final))) k
         \<and> entries (history pruned_final) (k + 1)"
    by blast
  from a b c d toy_pruned show ?thesis by blast
qed


subsection \<open>No epochs\<close>

lemma no_epochs_completes:
  fixes env :: "('t, 'img) torch"
  assumes "epochs cfg = 0" and "shuffles env" and "2 \<le> length ds" and "length ds < 2 ^ 48"
    and "0 < batch_size cfg"
  shows "fst (train_model env cfg ds) = Inr empty_dict"
proof -
  from split_ok [OF assms(2-4), of cfg] obtain tri vai t where
    sp: "split_data env cfg ds = Inr ((tri, vai), t)" and ne: "tri \<noteq> []"
    and r: "\<forall>j\<in>set tri. j < length ds" and nv: "vai \<noteq> []"
    by blast
  define ev :: "'t event list"
    where "ev = azure_start cfg @ [PrintLengths (length tri) (length vai)]"
  from start_loop_ok [OF assms(2,5) ne r nv, of t ev] obtain s0 where
    st: "start_loop env cfg ds tri vai t ev = Inr s0" ..
  have "training_loop env cfg ds tri vai s0 = (None, s0)"
    by (simp add: training_loop_def assms(1))
  then show ?thesis
    using sp st start_loop_state(1) [OF st]
    by (simp add: train_model_def train_from_split_def ev_def finish_def)
qed

lemma no_epochs_result:
  fixes env :: "('t, 'img) torch"
  assumes "epochs cfg = 0" and "fst (train_model env cfg ds) = Inr d"
  shows "d = empty_dict"
    and "\<exists>model. filter persists (snd (train_model env cfg ds)) =
      (if save_training_results cfg
       then save_results (trained_model_filepath cfg) (training_statistics_filepath cfg)
              (training_figures_filepath cfg) model empty_dict (use_azure cfg)
       else [])"
proof -
  from returned_dict_run [OF assms(2)] obtain s where
    lo: "loop_outcome env cfg ds = Some (None, s)" and d: "history s = d"
    and tm: "train_model env cfg ds = finish cfg s"
    by blast
  from loop_outcome_run [OF lo] obtain tri vai s0 k where
    h: "history s0 = empty_dict"
    and e: "events s0 = azure_start cfg @ [PrintLengths (length tri) (length vai), PrintShapes k k]"
    and lp: "training_loop env cfg ds tri vai s0 = (None, s)"
    by auto
  from lp have s: "s = s0" by (simp add: training_loop_def assms(1))
  show de: "d = empty_dict" using d h s by simp
  have "filter persists (events s) = []"
    by (simp add: s e azure_start_no_artifacts)
  then have "filter persists (snd (train_model env cfg ds)) =
      (if save_training_results cfg
       then save_results (trained_model_filepath cfg) (training_statistics_filepath cfg)
              (training_figures_filepath cfg) (runtime s) empty_dict (use_azure cfg)
       else [])"
    using d de by (simp add: tm finish_def save_results_artifacts split: option.splits)
  then show "\<exists>model. filter persists (snd (train_model env cfg ds)) =
      (if save_training_results cfg
       then save_results (trained_model_filepath cfg) (training_statistics_filepath cfg)
              (training_figures_filepath cfg) model empty_dict (use_azure cfg)
       else [])" ..
qed

text \<open>
  No epochs, everything else at its default: the empty history is returned, and the
  weights, the statistics and both plots are written.
\<close>

theorem zero_epochs_still_saves:
  "epochs (default_config\<lparr>epochs := 0\<rparr>) = 0
   \<and> fst (train_model toy_torch (default_config\<lparr>epochs := 0\<rparr>) toy_set) = Inr empty_dict
   \<and> filter persists (snd (train_model toy_torch (default_config\<lparr>epochs := 0\<rparr>) toy_set)) =
      [TorchSave 3 (InProject [''models/trained_model.pth'']),
       PickleDump empty_dict (InProject [''reports/'', ''train_val_dict.pickle'']),
       SaveFig (InProject [''reports/figures/'', ''Training_Loss.pdf'']),
       SaveFig (InProject [''reports/figures/'', ''Training_Accuracy.pdf''])]"
  by (simp add: toy_no_epochs)

text \<open>
  Claim C2, as the code has it. A run with \<^verbatim>\<open>epochs = 0\<close> over a dataset of at least 2
  samples with a positive batch size returns, and the Metric History it returns is
  empty. Whether artifacts are written does not depend on the number of epochs but on
  \<^verbatim>\<open>save_training_results\<close> alone: with its default \<^verbatim>\<open>True\<close>, \<^verbatim>\<open>save_results\<close> writes the
  model weights, the statistics of the empty history and both plots; nothing is
  written exactly when it is \<^verbatim>\<open>False\<close>.
\<close>

theorem zero_epochs:
  assumes "epochs cfg = 0"
  shows "(shuffles env \<and> 2 \<le> length ds \<and> length ds < 2 ^ 48 \<and> 0 < batch_size cfg
            \<longrightarrow> fst (train_model env cfg ds) = Inr empty_dict)
    \<and> (fst (train_model env cfg ds) = Inr d \<longrightarrow>
          d = empty_dict
          \<and> (\<exists>model. filter persists (snd (train_model env cfg ds)) =
               (if save_training_results cfg
                then save_results (trained_model_filepath cfg)
                       (training_statistics_filepath cfg) (training_figures_filepath cfg)
                       model empty_dict (use_azure cfg)
                else []))
          \<and> (filter persists (snd (train_model env cfg ds)) = []
                \<longleftrightarrow> \<not> save_training_results cfg))"
proof (intro conjI impI)
  assume "shuffles env \<and> 2 \<le> length ds \<and> length ds < 2 ^ 48 \<and> 0 < batch_size cfg"
  then show "fst (train_model env cfg ds) = Inr empty_dict"
    by (intro no_epochs_completes assms) simp_all
next
  assume r: "fst (train_model env cfg ds) = Inr d"
  show "d = empty_dict" by (rule no_epochs_result(1) [OF assms r])
  show "\<exists>model. filter persists (snd (train_model env cfg ds)) =
               (if save_training_results cfg
                then save_results (trained_model_filepath cfg)
                       (training_statistics_filepath cfg) (training_figures_filepath cfg)
                       model empty_dict (use_azure cfg)
                else [])"
    by (rule no_epochs_result(2) [OF assms r])
  then obtain model where m: "filter persists (snd (train_model env cfg ds)) =
               (if save_training_results cfg
                then save_results (trained_model_filepath cfg)
                       (training_statistics_filepath cfg) (training_figures_filepath cfg)
                       model empty_dict (use_azure cfg)
                else [])" ..
  show "filter persists (snd (train_model env cfg ds)) = []
                \<longleftrightarrow> \<not> save_training_results cfg"
    unfolding m by (simp add: save_results_artifacts(2))
qed

text \<open>The run without epochs on the small instance, with the default parameters.\<close>

theorem zero_epochs_witness:
  "epochs (default_config\<lparr>epochs := 0\<rparr>) = 0
   \<and> (shuffles toy_torch \<and> 2 \<le> length toy_set \<and> length toy_set < 2 ^ 48
        \<and> 0 < batch_size (default_config\<lparr>epochs := 0\<rparr>))
   \<and> fst (train_model toy_torch (default_config\<lparr>epochs := 0\<rparr>) toy_set) = Inr empty_dict
   \<and> save_training_results (default_config\<lparr>epochs := 0\<rparr>)
   \<and> filter persists (snd (train_model toy_torch (default_config\<lparr>epochs := 0\<rparr>) toy_set)) \<noteq> []"
proof -
  have e: "epochs (default_config\<lparr>epochs := 0\<rparr>) = 0" by simp
  have a: "shuffles toy_torch \<and> 2 \<le> length toy_set \<and> length toy_set < 2 ^ 48
        \<and> 0 < batch_size (default_config\<lparr>epochs := 0\<rparr>)"
    using toy_contracts(1) toy_sizes by (simp add: default_config_def)
  have s: "save_training_results (default_config\<lparr>epochs := 0\<rparr>)"
    by (simp add: default_config_def)
  note z = zero_epochs [OF e, of toy_torch toy_set empty_dict]
  from z a have r: "fst (train_model toy_torch (default_config\<lparr>epochs := 0\<rparr>) toy_set)
      = Inr empty_dict"
    by blast
  with z s
  have "filter persists (snd (train_model toy_torch (default_config\<lparr>epochs := 0\<rparr>) toy_set)) \<noteq> []"
    by blast
  with e a r s show ?thesis by blast
qed

subsection \<open>The range of the metrics on record\<close>

lemma in_range_iff:
  "in_range d \<longleftrightarrow>
     (\<forall>x\<in>set (train_losses d). 0 \<le> x) \<and> (\<forall>x\<in>set (train_accuracies d). 0 \<le> x \<and> x \<le> 1) \<and>
     (\<forall>x\<in>set (val_losses d). 0 \<le> x) \<and> (\<forall>x\<in>set (val_accuracies d). 0 \<le> x \<and> x \<le> 1)"
  by (simp add: in_range_def list_all_iff)

text \<open>
  Claim C10. Given a model whose batch losses are never negative (it emits
  log-probabilities) and samplers that visit every position of a partition once, every
  record of the Metric History, in the dictionary that is returned as well as in the
  local lists when the loop is left in any other way, has both accuracies between 0
  and 1 and both losses at least 0.
\<close>

theorem metric_range:
  assumes "shuffles env" and "nonneg_losses env"
  shows "(loop_outcome env cfg ds = Some (r, s) \<longrightarrow> in_range (history s))
    \<and> (fst (train_model env cfg ds) = Inr d \<longrightarrow>
         (\<forall>x\<in>set (train_losses d). 0 \<le> x) \<and> (\<forall>x\<in>set (val_losses d). 0 \<le> x) \<and>
         (\<forall>x\<in>set (train_accuracies d). 0 \<le> x \<and> x \<le> 1) \<and>
         (\<forall>x\<in>set (val_accuracies d). 0 \<le> x \<and> x \<le> 1))"
proof (intro conjI impI)
  assume "loop_outcome env cfg ds = Some (r, s)"
  then show "in_range (history s)" by (rule loop_outcome_in_range [OF assms])
next
  assume "fst (train_model env cfg ds) = Inr d"
  from returned_dict_run [OF this] obtain s' where
    "loop_outcome env cfg ds = Some (None, s')" "history s' = d"
    by blast
  with loop_outcome_in_range [OF assms] have "in_range d" by blast
  then show "(\<forall>x\<in>set (train_losses d). 0 \<le> x)" "(\<forall>x\<in>set (val_losses d). 0 \<le> x)"
    "(\<forall>x\<in>set (train_accuracies d). 0 \<le> x \<and> x \<le> 1)"
    "(\<forall>x\<in>set (val_accuracies d). 0 \<le> x \<and> x \<le> 1)"
    by (simp_all add: in_range_iff)
qed

text \<open>The pruned run and the run of one epoch on the small instance.\<close>

theorem metric_range_witness:
  "shuffles toy_torch \<and> nonneg_losses toy_torch
   \<and> loop_outcome toy_torch pruned_config toy_set = Some (Some TrialPruned, pruned_final)
   \<and> in_range (history pruned_final)
   \<and> fst (train_model toy_torch default_config toy_set) = Inr one_epoch_dict
   \<and> in_range one_epoch_dict"
proof -
  have b: "fst (train_model toy_torch default_config toy_set) = Inr one_epoch_dict"
    by (simp add: toy_default)
  from metric_range [OF toy_contracts, of pruned_config toy_set "Some TrialPruned" pruned_final]
    toy_pruned
  have c: "in_range (history pruned_final)" by blast
  from metric_range [OF toy_contracts, of default_config toy_set None pruned_final one_epoch_dict] b
  have d: "in_range one_epoch_dict" unfolding in_range_iff by blast
  from toy_contracts toy_pruned b c d show ?thesis by blast
qed

end
